theory Spec2Isabelle
  imports Main
begin

section \<open>Authentication and session core of the Ocean blog platform\<close>

text \<open>
  A shallow embedding of the backend's authentication core: the \<open>User\<close> model
  (\<open>models/User.js\<close>), the auth routes (\<open>routes/auth.js\<close>), the HTTP auth gate
  (\<open>middleware/auth.js\<close>) and the mail service (\<open>utils/email.js\<close>).

  Conventions of the embedding.
  \<^item> Time is \<open>Date.now()\<close> in milliseconds, an \<open>int\<close>; one request reads one clock value.
  \<^item> The data store is the list of stored user documents, in insertion order.
  \<^item> A handler returns the store after the request together with the HTTP response.
  \<^item> The libraries \<open>jsonwebtoken\<close> and \<open>bcryptjs\<close> are modelled symbolically: a token
    is the key that signed it and its claims; a hash is the password it was made from.
  \<^item> Handlers are modelled from the point where the \<open>express-validator\<close> chain has passed.
\<close>

subsection \<open>Library model: jsonwebtoken\<close>

datatype role = RoleUser | RoleAdmin | RoleModerator

record payload =
  p_id :: nat
  p_email :: "string option"
  p_role :: "role option"
  p_type :: "string option"
  p_iat :: int
  p_exp :: "int option"

text \<open>
  A token string is either a well-formed JWT, described by the secret that signed it and
  the claims it carries, or some other string. Two tokens are the same string exactly when
  they are equal here (HS256 signing is deterministic).
\<close>

datatype token = Signed string payload | Malformed string

datatype jwt_error = JsonWebTokenError | TokenExpiredError

text \<open>\<open>jwt.sign(claims, secret, { expiresIn })\<close>: \<open>iat\<close> is the clock in seconds,
  \<open>exp = iat + expiresIn\<close> (seconds).\<close>

definition jwt_sign :: "payload \<Rightarrow> string \<Rightarrow> int \<Rightarrow> int \<Rightarrow> token" where
  "jwt_sign claims secret expiresIn now =
     Signed secret (claims\<lparr>p_iat := now div 1000, p_exp := Some (now div 1000 + expiresIn)\<rparr>)"

text \<open>\<open>jwt.verify(token, secret)\<close>: the signature is checked first, then the expiry
  (\<open>clockTimestamp >= exp\<close> raises \<open>TokenExpiredError\<close>).\<close>

definition jwt_verify :: "token \<Rightarrow> string \<Rightarrow> int \<Rightarrow> jwt_error + payload" where
  "jwt_verify tok secret now =
     (case tok of
        Malformed s \<Rightarrow> Inl JsonWebTokenError
      | Signed k p \<Rightarrow>
          if k \<noteq> secret then Inl JsonWebTokenError
          else (case p_exp p of
                  None \<Rightarrow> Inr p
                | Some e \<Rightarrow> if e \<le> now div 1000 then Inl TokenExpiredError else Inr p))"

text \<open>JavaScript's \<open>!token\<close> on a request field: the field is absent or the empty string.\<close>

definition falsy :: "token option \<Rightarrow> bool" where
  "falsy t = (case t of None \<Rightarrow> True | Some tok \<Rightarrow> tok = Malformed [])"

subsection \<open>Library model: bcryptjs\<close>

text \<open>A hash records the cost, the salt and the password bytes that went in
  (bcrypt reads at most 72 bytes).\<close>

datatype bcrypt_hash = Bcrypt int nat string

definition bcrypt_hash :: "string \<Rightarrow> int \<Rightarrow> nat \<Rightarrow> bcrypt_hash" where
  "bcrypt_hash pw rounds salt = Bcrypt rounds salt (take 72 pw)"

definition bcrypt_compare :: "string \<Rightarrow> bcrypt_hash \<Rightarrow> bool" where
  "bcrypt_compare candidate h = (case h of Bcrypt r s p \<Rightarrow> take 72 candidate = p)"

subsection \<open>Process configuration\<close>

text \<open>\<open>process.env\<close>: the two signing secrets, the two lifetimes in seconds as
  \<open>jsonwebtoken\<close> reads them (\<open>None\<close> when the variable is unset) and
  \<open>parseInt(BCRYPT_ROUNDS)\<close> (\<open>None\<close> for \<open>NaN\<close>).\<close>

record config =
  JWT_SECRET :: string
  JWT_REFRESH_SECRET :: string
  JWT_EXPIRE :: "int option"
  JWT_REFRESH_EXPIRE :: "int option"
  BCRYPT_ROUNDS :: "int option"

definition days :: "int \<Rightarrow> int" where
  "days n = n * 24 * 60 * 60"

definition hours :: "int \<Rightarrow> int" where
  "hours n = n * 60 * 60"

text \<open>\<open>process.env.JWT_EXPIRE || '7d'\<close> and \<open>process.env.JWT_REFRESH_EXPIRE || '30d'\<close>.\<close>

definition access_expiresIn :: "config \<Rightarrow> int" where
  "access_expiresIn cfg = (case JWT_EXPIRE cfg of None \<Rightarrow> days 7 | Some s \<Rightarrow> s)"

definition refresh_expiresIn :: "config \<Rightarrow> int" where
  "refresh_expiresIn cfg = (case JWT_REFRESH_EXPIRE cfg of None \<Rightarrow> days 30 | Some s \<Rightarrow> s)"

text \<open>\<open>parseInt(process.env.BCRYPT_ROUNDS) || 12\<close>.\<close>

definition saltRounds :: "config \<Rightarrow> int" where
  "saltRounds cfg = (case BCRYPT_ROUNDS cfg of None \<Rightarrow> 12 | Some n \<Rightarrow> if n = 0 then 12 else n)"

subsection \<open>The User model\<close>

record refresh_entry =
  token :: token
  createdAt :: int

text \<open>The fields of \<open>userSchema\<close> that the authentication core reads or writes. The
  four fields declared \<open>select: false\<close> are optional in a loaded document.\<close>

record user =
  user_id :: nat
  name :: string
  email :: string
  password :: "bcrypt_hash option"
  role :: role
  isActive :: bool
  isEmailVerified :: bool
  emailVerificationToken :: "token option"
  passwordResetToken :: "token option"
  passwordResetExpires :: "int option"
  loginAttempts :: int
  lockUntil :: "int option"
  lastLogin :: int
  refreshTokens :: "refresh_entry list"

text \<open>String setters of the schema: \<open>lowercase: true\<close> on the email, \<open>trim: true\<close> on
  the name.\<close>

definition lower_char :: "char \<Rightarrow> char" where
  "lower_char c =
     (if (65::nat) \<le> of_char c \<and> of_char c \<le> (90::nat) then char_of (of_char c + (32::nat)) else c)"

definition toLowerCase :: "string \<Rightarrow> string" where
  "toLowerCase s = map lower_char s"

definition is_space :: "char \<Rightarrow> bool" where
  "is_space c = (of_char c \<in> {9, 10, 11, 12, 13, 32 :: nat})"

definition trim :: "string \<Rightarrow> string" where
  "trim s = rev (dropWhile is_space (rev (dropWhile is_space s)))"

subsection \<open>Schema validators\<close>

text \<open>The \<open>match\<close> validator of the email path tests the value against
  \<^verbatim>\<open>/^\w+([\.-]?\w+)*@\w+([\.-]?\w+)*(\.\w{2,3})+$/\<close>. Regular expressions over
  character classes, with \<open>RegExp.test\<close> for an anchored pattern computed by derivatives;
  \<open>lang\<close> is what an expression denotes.\<close>

datatype cclass = Word | OneOf string

definition is_word :: "char \<Rightarrow> bool" where
  "is_word c =
     (let n = (of_char c :: nat)
      in (48 \<le> n \<and> n \<le> 57) \<or> (65 \<le> n \<and> n \<le> 90) \<or> n = 95 \<or> (97 \<le> n \<and> n \<le> 122))"

fun in_class :: "cclass \<Rightarrow> char \<Rightarrow> bool" where
  "in_class Word c = is_word c"
| "in_class (OneOf cs) c = (c \<in> set cs)"

datatype rexp = Nul | Eps | Cls cclass | Seq rexp rexp | Alt rexp rexp | Star rexp

primrec nullable :: "rexp \<Rightarrow> bool" where
  "nullable Nul = False"
| "nullable Eps = True"
| "nullable (Cls k) = False"
| "nullable (Seq r s) = (nullable r \<and> nullable s)"
| "nullable (Alt r s) = (nullable r \<or> nullable s)"
| "nullable (Star r) = True"

primrec deriv :: "char \<Rightarrow> rexp \<Rightarrow> rexp" where
  "deriv c Nul = Nul"
| "deriv c Eps = Nul"
| "deriv c (Cls k) = (if in_class k c then Eps else Nul)"
| "deriv c (Seq r s) =
     (if nullable r then Alt (Seq (deriv c r) s) (deriv c s) else Seq (deriv c r) s)"
| "deriv c (Alt r s) = Alt (deriv c r) (deriv c s)"
| "deriv c (Star r) = Seq (deriv c r) (Star r)"

definition regexp_test :: "rexp \<Rightarrow> string \<Rightarrow> bool" where
  "regexp_test r s = nullable (foldl (\<lambda>q c. deriv c q) r s)"

definition conc :: "string set \<Rightarrow> string set \<Rightarrow> string set" where
  "conc A B = {u @ v | u v. u \<in> A \<and> v \<in> B}"

inductive_set star :: "string set \<Rightarrow> string set" for A :: "string set" where
  star_nil: "[] \<in> star A"
| star_app: "u \<in> A \<Longrightarrow> v \<in> star A \<Longrightarrow> u @ v \<in> star A"

primrec lang :: "rexp \<Rightarrow> string set" where
  "lang Nul = {}"
| "lang Eps = {[]}"
| "lang (Cls k) = {[c] | c. in_class k c}"
| "lang (Seq r s) = conc (lang r) (lang s)"
| "lang (Alt r s) = lang r \<union> lang s"
| "lang (Star r) = star (lang r)"

text \<open>\<open>r+\<close> and \<open>r?\<close>.\<close>

definition OneOrMore :: "rexp \<Rightarrow> rexp" where
  "OneOrMore r = Seq r (Star r)"

definition Optional :: "rexp \<Rightarrow> rexp" where
  "Optional r = Alt r Eps"

text \<open>\<^verbatim>\<open>\w+([\.-]?\w+)*\<close>, \<^verbatim>\<open>(\.\w{2,3})+\<close> and the whole pattern.\<close>

definition labels :: rexp where
  "labels = Seq (OneOrMore (Cls Word))
                (Star (Seq (Optional (Cls (OneOf ''.-''))) (OneOrMore (Cls Word))))"

definition suffixes :: rexp where
  "suffixes = OneOrMore (Seq (Cls (OneOf ''.''))
                             (Seq (Cls Word) (Seq (Cls Word) (Optional (Cls Word)))))"

definition email_match :: rexp where
  "email_match = Seq labels (Seq (Cls (OneOf ''@'')) (Seq labels suffixes))"

text \<open>The validators that run when a document is saved, on the values the setters left:
  \<open>required\<close> and \<open>minlength: 8\<close> on the password (before the pre-save hook hashes it);
  \<open>required\<close> and \<open>maxlength: 50\<close> on the name; \<open>required\<close> and \<open>match\<close> on the email.\<close>

definition validate_password :: "string \<Rightarrow> bool" where
  "validate_password pw = (pw \<noteq> [] \<and> 8 \<le> length pw)"

definition validate_User :: "string \<Rightarrow> string \<Rightarrow> string \<Rightarrow> bool" where
  "validate_User nm em pw =
     (nm \<noteq> [] \<and> length nm \<le> 50 \<and> em \<noteq> [] \<and> regexp_test email_match em \<and> validate_password pw)"

text \<open>Query projections. A query without \<open>select\<close>, or with \<open>select('-password')\<close>, leaves
  out every \<open>select: false\<close> path; \<open>select('+password')\<close> adds the password back.\<close>

definition select_default :: "user \<Rightarrow> user" where
  "select_default u =
     u\<lparr>password := None, emailVerificationToken := None,
       passwordResetToken := None, passwordResetExpires := None\<rparr>"

definition select_plus_password :: "user \<Rightarrow> user" where
  "select_plus_password u =
     u\<lparr>emailVerificationToken := None, passwordResetToken := None, passwordResetExpires := None\<rparr>"

text \<open>Lookups return the stored document; each handler applies its projection. The
  email of a filter goes through the schema's \<open>lowercase\<close> setter.\<close>

definition findById :: "user list \<Rightarrow> nat \<Rightarrow> user option" where
  "findById db i = find (\<lambda>u. user_id u = i) db"

definition findOne :: "user list \<Rightarrow> string \<Rightarrow> user option" where
  "findOne db e = find (\<lambda>u. email u = toLowerCase e) db"

text \<open>\<open>save()\<close> of a loaded document and \<open>updateOne\<close> write the changed paths of the
  document with that \<open>_id\<close>; \<open>persist\<close> takes the stored document with those paths
  changed. The first \<open>save()\<close> of a new document inserts it.\<close>

definition persist :: "user list \<Rightarrow> user \<Rightarrow> user list" where
  "persist db u = map (\<lambda>x. if user_id x = user_id u then u else x) db"

definition insert_user :: "user list \<Rightarrow> user \<Rightarrow> user list" where
  "insert_user db u = db @ [u]"

text \<open>The virtual \<open>isLocked\<close>: \<open>!!(this.lockUntil && this.lockUntil > Date.now())\<close>.\<close>

definition isLocked :: "int \<Rightarrow> user \<Rightarrow> bool" where
  "isLocked now u = (case lockUntil u of None \<Rightarrow> False | Some l \<Rightarrow> now < l)"

text \<open>\<open>comparePassword\<close>: \<open>bcrypt.compare\<close> throws when the document has no password.\<close>

definition comparePassword :: "string \<Rightarrow> user \<Rightarrow> unit + bool" where
  "comparePassword candidatePassword u =
     (case password u of None \<Rightarrow> Inl () | Some h \<Rightarrow> Inr (bcrypt_compare candidatePassword h))"

definition generateAuthToken :: "config \<Rightarrow> int \<Rightarrow> user \<Rightarrow> token" where
  "generateAuthToken cfg now u =
     jwt_sign \<lparr>p_id = user_id u, p_email = Some (email u), p_role = Some (role u),
               p_type = None, p_iat = 0, p_exp = None\<rparr>
       (JWT_SECRET cfg) (access_expiresIn cfg) now"

text \<open>\<open>xs.slice(-n)\<close>: the last \<open>n\<close> elements.\<close>

definition slice_last :: "nat \<Rightarrow> 'a list \<Rightarrow> 'a list" where
  "slice_last n xs = drop (length xs - n) xs"

definition refresh_jwt :: "config \<Rightarrow> int \<Rightarrow> user \<Rightarrow> token" where
  "refresh_jwt cfg now u =
     jwt_sign \<lparr>p_id = user_id u, p_email = None, p_role = None,
               p_type = None, p_iat = 0, p_exp = None\<rparr>
       (JWT_REFRESH_SECRET cfg) (refresh_expiresIn cfg) now"

text \<open>\<open>generateRefreshToken\<close>: sign, push, keep the last five; returns the token and the
  changed document.\<close>

definition generateRefreshToken :: "config \<Rightarrow> int \<Rightarrow> user \<Rightarrow> token \<times> user" where
  "generateRefreshToken cfg now u =
     (let tok = refresh_jwt cfg now u;
          pushed = refreshTokens u @ [\<lparr>token = tok, createdAt = now\<rparr>]
      in (tok, u\<lparr>refreshTokens := (if length pushed > 5 then slice_last 5 pushed else pushed)\<rparr>))"

definition removeRefreshToken :: "token \<Rightarrow> user \<Rightarrow> user" where
  "removeRefreshToken tok u = u\<lparr>refreshTokens := filter (\<lambda>r. token r \<noteq> tok) (refreshTokens u)\<rparr>"

definition verifies :: "config \<Rightarrow> int \<Rightarrow> refresh_entry \<Rightarrow> bool" where
  "verifies cfg now r =
     (case jwt_verify (token r) (JWT_REFRESH_SECRET cfg) now of Inl e \<Rightarrow> False | Inr p \<Rightarrow> True)"

definition cleanupRefreshTokens :: "config \<Rightarrow> int \<Rightarrow> user \<Rightarrow> user" where
  "cleanupRefreshTokens cfg now u = u\<lparr>refreshTokens := filter (verifies cfg now) (refreshTokens u)\<rparr>"

definition generateEmailVerificationToken :: "config \<Rightarrow> int \<Rightarrow> user \<Rightarrow> token \<times> user" where
  "generateEmailVerificationToken cfg now u =
     (let tok = jwt_sign \<lparr>p_id = user_id u, p_email = None, p_role = None,
                          p_type = Some ''email_verification'', p_iat = 0, p_exp = None\<rparr>
                  (JWT_SECRET cfg) (hours 24) now
      in (tok, u\<lparr>emailVerificationToken := Some tok\<rparr>))"

definition generatePasswordResetToken :: "config \<Rightarrow> int \<Rightarrow> user \<Rightarrow> token \<times> user" where
  "generatePasswordResetToken cfg now u =
     (let tok = jwt_sign \<lparr>p_id = user_id u, p_email = None, p_role = None,
                          p_type = Some ''password_reset'', p_iat = 0, p_exp = None\<rparr>
                  (JWT_SECRET cfg) (hours 1) now
      in (tok, u\<lparr>passwordResetToken := Some tok,
                 passwordResetExpires := Some (now + 60 * 60 * 1000)\<rparr>))"

definition maxAttempts :: int where
  "maxAttempts = 5"

definition lockTime :: int where
  "lockTime = 2 * 60 * 60 * 1000"

text \<open>\<open>incLoginAttempts\<close>: the conditions are read from the loaded document \<open>this\<close>, the
  update (\<open>$set\<close>/\<open>$unset\<close>, or \<open>$inc\<close> with an optional \<open>$set\<close>) is applied to the
  stored document.\<close>

definition incLoginAttempts :: "int \<Rightarrow> user \<Rightarrow> user \<Rightarrow> user" where
  "incLoginAttempts now this stored =
     (if (case lockUntil this of None \<Rightarrow> False | Some l \<Rightarrow> l < now)
      then stored\<lparr>loginAttempts := 1, lockUntil := None\<rparr>
      else if maxAttempts \<le> loginAttempts this + 1 \<and> \<not> isLocked now this
      then stored\<lparr>loginAttempts := loginAttempts stored + 1, lockUntil := Some (now + lockTime)\<rparr>
      else stored\<lparr>loginAttempts := loginAttempts stored + 1\<rparr>)"

subsection \<open>The mail service\<close>

text \<open>\<open>EmailService.sendMail\<close> returns \<open>{ success: false }\<close> when the service is not
  enabled, and catches every error of the transport: it never throws. \<open>transport_ok\<close> says
  whether the transport would deliver this mail.\<close>

record mailer =
  isEnabled :: bool
  transport_ok :: bool

definition sendMail :: "mailer \<Rightarrow> bool" where
  "sendMail ms = (if \<not> isEnabled ms then False else if transport_ok ms then True else False)"

text \<open>\<open>sendPasswordReset\<close> builds the mail and returns what \<open>sendMail\<close> returns; \<open>Inl\<close>
  would be a thrown error, which the route catches.\<close>

definition sendPasswordReset :: "mailer \<Rightarrow> user \<Rightarrow> token \<Rightarrow> unit + bool" where
  "sendPasswordReset ms u tok = Inr (sendMail ms)"

subsection \<open>Responses\<close>

record response =
  statusCode :: nat
  status :: string
  message :: string
  r_token :: "token option"
  r_refreshToken :: "token option"

definition reply :: "nat \<Rightarrow> string \<Rightarrow> string \<Rightarrow> response" where
  "reply c s m = \<lparr>statusCode = c, status = s, message = m, r_token = None, r_refreshToken = None\<rparr>"

definition reply_tokens :: "nat \<Rightarrow> string \<Rightarrow> token \<Rightarrow> token \<Rightarrow> response" where
  "reply_tokens c m t rt =
     \<lparr>statusCode = c, status = ''success'', message = m, r_token = Some t, r_refreshToken = Some rt\<rparr>"

text \<open>Modelled from the spec: the top-level \<open>errorHandler\<close> (\<open>middleware/errorHandler.js\<close>
  is not among the sources) turns an error that a handler throws into a generic 500.\<close>

definition internal_error :: response where
  "internal_error = reply 500 ''error'' ''Internal Server Error''"

text \<open>Modelled from the spec: the same \<open>errorHandler\<close> answers a schema
  \<open>ValidationError\<close> that a handler lets through (malformed input, 400).\<close>

definition validation_error :: response where
  "validation_error = reply 400 ''fail'' ''Validation failed''"

subsection \<open>The routes of \<open>routes/auth.js\<close>\<close>

text \<open>The document after \<open>new User({ name, email, password })\<close> and its first \<open>save()\<close>:
  the schema defaults, the setters, and the pre-save hook that hashes the password.
  \<open>oid\<close> is the \<open>_id\<close> the driver generates, \<open>salt\<close> the salt \<open>bcrypt.hash\<close> draws.\<close>

definition create_User :: "config \<Rightarrow> int \<Rightarrow> nat \<Rightarrow> nat \<Rightarrow> string \<Rightarrow> string \<Rightarrow> string \<Rightarrow> user" where
  "create_User cfg now oid salt nm em pw =
     \<lparr>user_id = oid, name = trim nm, email = toLowerCase em,
      password = Some (bcrypt_hash pw (saltRounds cfg) salt),
      role = RoleUser, isActive = True, isEmailVerified = False,
      emailVerificationToken = None, passwordResetToken = None, passwordResetExpires = None,
      loginAttempts = 0, lockUntil = None, lastLogin = now, refreshTokens = []\<rparr>"

text \<open>\<open>POST /register\<close>. The first \<open>save()\<close> validates the new document and throws when a
  validator fails, before anything is stored. The welcome mail is best effort: its outcome
  changes neither the store nor the response.\<close>

definition register ::
  "config \<Rightarrow> int \<Rightarrow> nat \<Rightarrow> nat \<Rightarrow> user list \<Rightarrow> string \<Rightarrow> string \<Rightarrow> string \<Rightarrow> user list \<times> response" where
  "register cfg now oid salt db nm em pw =
     (case findOne db em of
        Some existingUser \<Rightarrow> (db, reply 400 ''fail'' ''User with this email already exists'')
      | None \<Rightarrow>
          if \<not> validate_User (trim nm) (toLowerCase em) pw then (db, validation_error)
          else (let u = create_User cfg now oid salt nm em pw;
                    db1 = insert_user db u;
                    authToken = generateAuthToken cfg now u;
                    gen = generateRefreshToken cfg now u
                in (persist db1 (snd gen),
                    reply_tokens 201 ''User registered successfully'' authToken (fst gen))))"

text \<open>\<open>POST /login\<close>.\<close>

definition login_success :: "config \<Rightarrow> int \<Rightarrow> user list \<Rightarrow> user \<Rightarrow> user list \<times> response" where
  "login_success cfg now db stored =
     (let s1 = (if loginAttempts stored > 0 then stored\<lparr>loginAttempts := 0, lockUntil := None\<rparr>
                else stored);
          s2 = s1\<lparr>lastLogin := now\<rparr>;
          authToken = generateAuthToken cfg now s2;
          gen = generateRefreshToken cfg now s2
      in (persist db (snd gen), reply_tokens 200 ''Login successful'' authToken (fst gen)))"

definition login :: "config \<Rightarrow> int \<Rightarrow> user list \<Rightarrow> string \<Rightarrow> string \<Rightarrow> user list \<times> response" where
  "login cfg now db em pw =
     (case findOne db em of
        None \<Rightarrow> (db, reply 401 ''fail'' ''Invalid email or password'')
      | Some stored \<Rightarrow>
          (let u = select_plus_password stored in
           if isLocked now u
           then (db, reply 423 ''fail''
                       ''Account temporarily locked due to too many failed login attempts'')
           else if \<not> isActive u
           then (db, reply 401 ''fail'' ''Account is deactivated'')
           else (case comparePassword pw u of
                   Inl err \<Rightarrow> (db, internal_error)
                 | Inr isPasswordValid \<Rightarrow>
                     if \<not> isPasswordValid
                     then (persist db (incLoginAttempts now u stored),
                           reply 401 ''fail'' ''Invalid email or password'')
                     else login_success cfg now db stored)))"

text \<open>\<open>POST /refresh\<close>. Every error thrown inside the \<open>try\<close> (here: by
  \<open>verifyRefreshToken\<close>) gives the same 401.\<close>

definition verifyRefreshToken :: "config \<Rightarrow> int \<Rightarrow> token \<Rightarrow> jwt_error + payload" where
  "verifyRefreshToken cfg now tok = jwt_verify tok (JWT_REFRESH_SECRET cfg) now"

definition tokenExists :: "user \<Rightarrow> token \<Rightarrow> bool" where
  "tokenExists u tok = list_ex (\<lambda>tokenObj. token tokenObj = tok) (refreshTokens u)"

definition refresh_success :: "config \<Rightarrow> int \<Rightarrow> user list \<Rightarrow> user \<Rightarrow> user list \<times> response" where
  "refresh_success cfg now db stored =
     (let u1 = cleanupRefreshTokens cfg now stored;
          newAuthToken = generateAuthToken cfg now u1;
          gen = generateRefreshToken cfg now u1
      in (persist db (snd gen),
          reply_tokens 200 ''Token refreshed successfully'' newAuthToken (fst gen)))"

definition refresh :: "config \<Rightarrow> int \<Rightarrow> user list \<Rightarrow> token option \<Rightarrow> user list \<times> response" where
  "refresh cfg now db refreshToken =
     (case refreshToken of
        None \<Rightarrow> (db, reply 401 ''fail'' ''Refresh token is required'')
      | Some tok \<Rightarrow>
          if falsy refreshToken then (db, reply 401 ''fail'' ''Refresh token is required'')
          else (case verifyRefreshToken cfg now tok of
                  Inl err \<Rightarrow> (db, reply 401 ''fail'' ''Invalid or expired refresh token'')
                | Inr decoded \<Rightarrow>
                    (case findById db (p_id decoded) of
                       None \<Rightarrow> (db, reply 401 ''fail'' ''User not found'')
                     | Some stored \<Rightarrow>
                         if \<not> isActive stored
                         then (db, reply 401 ''fail'' ''Account is deactivated'')
                         else if \<not> tokenExists stored tok
                         then (db, reply 401 ''fail'' ''Invalid refresh token'')
                         else refresh_success cfg now db stored)))"

text \<open>\<open>POST /verify-email\<close>.\<close>

definition verifyEmail :: "config \<Rightarrow> int \<Rightarrow> user list \<Rightarrow> token option \<Rightarrow> user list \<times> response" where
  "verifyEmail cfg now db tk =
     (case tk of
        None \<Rightarrow> (db, reply 400 ''fail'' ''Verification token is required'')
      | Some tok \<Rightarrow>
          if falsy tk then (db, reply 400 ''fail'' ''Verification token is required'')
          else (case jwt_verify tok (JWT_SECRET cfg) now of
                  Inl TokenExpiredError \<Rightarrow> (db, reply 400 ''fail'' ''Verification token has expired'')
                | Inl JsonWebTokenError \<Rightarrow> (db, reply 400 ''fail'' ''Invalid verification token'')
                | Inr decoded \<Rightarrow>
                    if p_type decoded \<noteq> Some ''email_verification''
                    then (db, reply 400 ''fail'' ''Invalid verification token'')
                    else (case findById db (p_id decoded) of
                            None \<Rightarrow> (db, reply 404 ''fail'' ''User not found'')
                          | Some stored \<Rightarrow>
                              if isEmailVerified stored
                              then (db, reply 400 ''fail'' ''Email is already verified'')
                              else (persist db (stored\<lparr>isEmailVerified := True,
                                                       emailVerificationToken := None\<rparr>),
                                    reply 200 ''success'' ''Email verified successfully''))))"

text \<open>\<open>POST /forgot-password\<close>.\<close>

definition forgotPassword :: "config \<Rightarrow> int \<Rightarrow> mailer \<Rightarrow> user list \<Rightarrow> string \<Rightarrow> user list \<times> response" where
  "forgotPassword cfg now ms db em =
     (case findOne db em of
        None \<Rightarrow>
          (db, reply 200 ''success''
                 ''If a user with that email exists, we have sent a password reset link'')
      | Some stored \<Rightarrow>
          (let gen = generatePasswordResetToken cfg now stored;
               db1 = persist db (snd gen)
           in (case sendPasswordReset ms (snd gen) (fst gen) of
                 Inr sent \<Rightarrow> (db1, reply 200 ''success'' ''Password reset email sent successfully'')
               | Inl err \<Rightarrow>
                   (persist db1 ((snd gen)\<lparr>passwordResetToken := None, passwordResetExpires := None\<rparr>),
                    reply 500 ''fail'' ''Could not send password reset email''))))"

text \<open>The last step of \<open>POST /reset-password\<close>: the four assignments and the \<open>save()\<close>.
  The save validates the new password and then hashes it in the pre-save hook; a
  validation error is caught by the route's \<open>catch\<close>.\<close>

definition resetPassword_save ::
  "config \<Rightarrow> nat \<Rightarrow> user list \<Rightarrow> user \<Rightarrow> string \<Rightarrow> user list \<times> response" where
  "resetPassword_save cfg salt db stored pw =
     (if \<not> validate_password pw
      then (db, reply 400 ''fail'' ''Invalid or expired reset token'')
      else (persist db (stored\<lparr>password := Some (bcrypt_hash pw (saltRounds cfg) salt),
                               passwordResetToken := None,
                               passwordResetExpires := None,
                               refreshTokens := []\<rparr>),
            reply 200 ''success'' ''Password reset successfully''))"

text \<open>\<open>POST /reset-password\<close>. The user is loaded by \<open>User.findById(decoded.id)\<close> with no
  \<open>select\<close>, so the checks read the default projection; \<open>undefined < Date.now()\<close> is
  false.\<close>

definition resetPassword ::
  "config \<Rightarrow> int \<Rightarrow> nat \<Rightarrow> user list \<Rightarrow> token \<Rightarrow> string \<Rightarrow> user list \<times> response" where
  "resetPassword cfg now salt db tok pw =
     (case jwt_verify tok (JWT_SECRET cfg) now of
        Inl err \<Rightarrow> (db, reply 400 ''fail'' ''Invalid or expired reset token'')
      | Inr decoded \<Rightarrow>
          if p_type decoded \<noteq> Some ''password_reset''
          then (db, reply 400 ''fail'' ''Invalid reset token'')
          else (case findById db (p_id decoded) of
                  None \<Rightarrow> (db, reply 404 ''fail'' ''User not found'')
                | Some stored \<Rightarrow>
                    (let u = select_default stored in
                     if falsy (passwordResetToken u) \<or> passwordResetToken u \<noteq> Some tok
                     then (db, reply 400 ''fail'' ''Invalid or expired reset token'')
                     else if (case passwordResetExpires u of None \<Rightarrow> False | Some e \<Rightarrow> e < now)
                     then (db, reply 400 ''fail'' ''Reset token has expired'')
                     else resetPassword_save cfg salt db stored pw)))"

subsection \<open>The HTTP auth gate of \<open>middleware/auth.js\<close>\<close>

text \<open>The \<open>Authorization\<close> header, split at spaces: its first piece, and its second piece
  (if there is one) read as a token.\<close>

record authorization =
  h_first :: string
  h_second :: "token option"

datatype app_error = AppError string nat

text \<open>\<open>startsWith('Bearer')\<close> on the header is \<open>startsWith('Bearer')\<close> on its first piece,
  and \<open>split(' ')[1]\<close> is the second piece.\<close>

definition startsWith :: "string \<Rightarrow> string \<Rightarrow> bool" where
  "startsWith s pre = (take (length pre) s = pre)"

definition bearer :: "authorization option \<Rightarrow> token option" where
  "bearer h =
     (case h of
        None \<Rightarrow> None
      | Some a \<Rightarrow> if h_first a \<noteq> [] \<and> startsWith (h_first a) ''Bearer'' then h_second a else None)"

definition authenticate :: "config \<Rightarrow> int \<Rightarrow> user list \<Rightarrow> authorization option \<Rightarrow> app_error + user" where
  "authenticate cfg now db h =
     (case bearer h of
        None \<Rightarrow> Inl (AppError ''Access token is required'' 401)
      | Some tok \<Rightarrow>
          if falsy (bearer h) then Inl (AppError ''Access token is required'' 401)
          else (case jwt_verify tok (JWT_SECRET cfg) now of
                  Inl JsonWebTokenError \<Rightarrow> Inl (AppError ''Invalid token'' 401)
                | Inl TokenExpiredError \<Rightarrow> Inl (AppError ''Token expired'' 401)
                | Inr decoded \<Rightarrow>
                    (case findById db (p_id decoded) of
                       None \<Rightarrow> Inl (AppError ''User no longer exists'' 401)
                     | Some stored \<Rightarrow>
                         if \<not> isActive stored then Inl (AppError ''Account is deactivated'' 401)
                         else Inr (select_default stored))))"

text \<open>\<open>POST /logout\<close>, behind \<open>authenticate\<close>: only the \<open>refreshTokens\<close> path of \<open>req.user\<close>
  is written back.\<close>

definition save_refreshTokens :: "user list \<Rightarrow> user \<Rightarrow> user list" where
  "save_refreshTokens db u =
     map (\<lambda>x. if user_id x = user_id u then x\<lparr>refreshTokens := refreshTokens u\<rparr> else x) db"

definition logout ::
  "config \<Rightarrow> int \<Rightarrow> user list \<Rightarrow> authorization option \<Rightarrow> token option \<Rightarrow> user list \<times> (app_error + response)" where
  "logout cfg now db h refreshToken =
     (case authenticate cfg now db h of
        Inl err \<Rightarrow> (db, Inl err)
      | Inr u \<Rightarrow>
          (case refreshToken of
             None \<Rightarrow> (save_refreshTokens db (u\<lparr>refreshTokens := []\<rparr>),
                       Inr (reply 200 ''success'' ''Logged out successfully''))
           | Some tok \<Rightarrow>
               if falsy refreshToken
               then (save_refreshTokens db (u\<lparr>refreshTokens := []\<rparr>),
                     Inr (reply 200 ''success'' ''Logged out successfully''))
               else (save_refreshTokens db (removeRefreshToken tok u),
                     Inr (reply 200 ''success'' ''Logged out successfully''))))"

subsection \<open>Vocabulary of the properties\<close>

text \<open>Running login requests for one email in order, each given by its clock value and
  the submitted password; the result is the store after the last one.\<close>

fun login_all :: "config \<Rightarrow> user list \<Rightarrow> string \<Rightarrow> (int \<times> string) list \<Rightarrow> user list" where
  "login_all cfg db em [] = db"
| "login_all cfg db em ((now, pw) # rest) = login_all cfg (fst (login cfg now db em pw)) em rest"

definition locked_reply :: response where
  "locked_reply =
     reply 423 ''fail'' ''Account temporarily locked due to too many failed login attempts''"

definition invalid_credentials :: response where
  "invalid_credentials = reply 401 ''fail'' ''Invalid email or password''"

text \<open>The lock timestamp is set and has passed.\<close>

definition lock_elapsed :: "int \<Rightarrow> user \<Rightarrow> bool" where
  "lock_elapsed now u = (case lockUntil u of None \<Rightarrow> False | Some l \<Rightarrow> l < now)"

text \<open>Every stored session list has at most five entries.\<close>

definition tokens_capped :: "user list \<Rightarrow> bool" where
  "tokens_capped db = list_all (\<lambda>u. length (refreshTokens u) \<le> 5) db"

text \<open>Some stored session list contains the token.\<close>

definition holds_token :: "user list \<Rightarrow> token \<Rightarrow> bool" where
  "holds_token db tok = list_ex (\<lambda>u. tokenExists u tok) db"

text \<open>The reasons for which the specification lets \<open>RefreshToken\<close> fail: the token does
  not verify against the refresh secret (signature or expiry), its owner does not exist,
  the owner is deactivated, or the token is not in the owner's stored list.\<close>

definition refresh_rejected :: "config \<Rightarrow> int \<Rightarrow> user list \<Rightarrow> token \<Rightarrow> bool" where
  "refresh_rejected cfg now db tok =
     (case verifyRefreshToken cfg now tok of
        Inl err \<Rightarrow> True
      | Inr decoded \<Rightarrow>
          (case findById db (p_id decoded) of
             None \<Rightarrow> True
           | Some owner \<Rightarrow> \<not> isActive owner \<or> \<not> tokenExists owner tok))"

subsection \<open>A concrete deployment and account\<close>

text \<open>Default lifetimes and cost, two distinct secrets, a working mail transport.\<close>

definition cfg0 :: config where
  "cfg0 = \<lparr>JWT_SECRET = ''access-secret'', JWT_REFRESH_SECRET = ''refresh-secret'',
           JWT_EXPIRE = None, JWT_REFRESH_EXPIRE = None, BCRYPT_ROUNDS = None\<rparr>"

definition mail0 :: mailer where
  "mail0 = \<lparr>isEnabled = True, transport_ok = True\<rparr>"

text \<open>The refresh-token record that \<open>generateRefreshToken\<close> stores for user 1 at second \<open>s\<close>.\<close>

definition issued :: "int \<Rightarrow> refresh_entry" where
  "issued s = \<lparr>token = Signed ''refresh-secret''
                   \<lparr>p_id = 1, p_email = None, p_role = None, p_type = None,
                    p_iat = s, p_exp = Some (s + 2592000)\<rparr>,
               createdAt = s * 1000\<rparr>"

text \<open>Alice right after registering at 1000 ms; after four more logins at 2000 to 5000 ms;
  after five wrong passwords, the last at 6000 ms; deactivated; and after asking for a
  password reset at 2000 ms.\<close>

definition alice :: user where
  "alice = \<lparr>user_id = 1, name = ''Alice'', email = ''alice@example.com'',
            password = Some (Bcrypt 12 7 ''Password1!''),
            role = RoleUser, isActive = True, isEmailVerified = False,
            emailVerificationToken = None, passwordResetToken = None, passwordResetExpires = None,
            loginAttempts = 0, lockUntil = None, lastLogin = 1000, refreshTokens = [issued 1]\<rparr>"

definition alice5 :: user where
  "alice5 = alice\<lparr>lastLogin := 5000,
                  refreshTokens := [issued 1, issued 2, issued 3, issued 4, issued 5]\<rparr>"

definition four_wrong :: "(int \<times> string) list" where
  "four_wrong = [(2000, ''wrong1''), (3000, ''wrong2''), (4000, ''wrong3''), (5000, ''wrong4'')]"

definition alice_locked :: user where
  "alice_locked = alice\<lparr>loginAttempts := 5, lockUntil := Some 7206000\<rparr>"

definition alice_off :: user where
  "alice_off = alice\<lparr>isActive := False\<rparr>"

definition reset_token :: token where
  "reset_token = Signed ''access-secret''
                   \<lparr>p_id = 1, p_email = None, p_role = None, p_type = Some ''password_reset'',
                    p_iat = 2, p_exp = Some 3602\<rparr>"

definition alice_reset :: user where
  "alice_reset = alice\<lparr>passwordResetToken := Some reset_token,
                        passwordResetExpires := Some 3602000\<rparr>"

definition access_token :: token where
  "access_token = Signed ''access-secret''
                   \<lparr>p_id = 1, p_email = Some ''alice@example.com'', p_role = Some RoleUser,
                    p_type = None, p_iat = 1, p_exp = Some 604801\<rparr>"

definition bearer_header :: "token \<Rightarrow> authorization option" where
  "bearer_header tok = Some \<lparr>h_first = ''Bearer'', h_second = Some tok\<rparr>"

section \<open>Properties\<close>

subsection \<open>The pattern matcher\<close>

text \<open>\<open>regexp_test\<close> decides membership in the language of the expression.\<close>

lemma nullable_lang: "nullable r \<longleftrightarrow> [] \<in> lang r"
  by (induction r) (auto simp: conc_def intro: star_nil)

lemma in_conc: "s \<in> conc A B \<longleftrightarrow> (\<exists>u v. s = u @ v \<and> u \<in> A \<and> v \<in> B)"
  by (auto simp: conc_def)

lemma head_conc:
  "c # s \<in> conc A B \<longleftrightarrow>
     (\<exists>u v. s = u @ v \<and> c # u \<in> A \<and> v \<in> B) \<or> ([] \<in> A \<and> c # s \<in> B)"
  by (auto simp: conc_def Cons_eq_append_conv)

lemma tail_in_star:
  "w \<in> star A \<Longrightarrow> w = c # s \<Longrightarrow> \<exists>u v. s = u @ v \<and> c # u \<in> A \<and> v \<in> star A"
proof (induction arbitrary: s rule: star.induct)
  case star_nil
  then show ?case by simp
next
  case (star_app u v)
  show ?case
  proof (cases u)
    case Nil
    then show ?thesis using star_app by simp
  next
    case (Cons a u')
    then have "s = u' @ v" "c # u' \<in> A" using star_app.hyps(1) star_app.prems by auto
    then show ?thesis using star_app.hyps(2) by blast
  qed
qed

lemma head_star:
  "c # s \<in> star A \<longleftrightarrow> (\<exists>u v. s = u @ v \<and> c # u \<in> A \<and> v \<in> star A)"
proof
  assume "c # s \<in> star A"
  then show "\<exists>u v. s = u @ v \<and> c # u \<in> A \<and> v \<in> star A"
    using tail_in_star by blast
next
  assume "\<exists>u v. s = u @ v \<and> c # u \<in> A \<and> v \<in> star A"
  then obtain u v where "s = u @ v" "c # u \<in> A" "v \<in> star A" by blast
  then show "c # s \<in> star A" using star_app[of "c # u" A v] by simp
qed

lemma deriv_lang: "s \<in> lang (deriv c r) \<longleftrightarrow> c # s \<in> lang r"
proof (induction r arbitrary: s)
  case (Seq r1 r2)
  have "s \<in> lang (deriv c (Seq r1 r2)) \<longleftrightarrow>
          (\<exists>u v. s = u @ v \<and> u \<in> lang (deriv c r1) \<and> v \<in> lang r2)
          \<or> (nullable r1 \<and> s \<in> lang (deriv c r2))"
    by (auto simp: in_conc)
  also have "\<dots> \<longleftrightarrow>
          (\<exists>u v. s = u @ v \<and> c # u \<in> lang r1 \<and> v \<in> lang r2)
          \<or> ([] \<in> lang r1 \<and> c # s \<in> lang r2)"
    by (simp add: Seq nullable_lang)
  also have "\<dots> \<longleftrightarrow> c # s \<in> lang (Seq r1 r2)"
    by (simp add: head_conc)
  finally show ?case .
next
  case (Star r)
  have "s \<in> lang (deriv c (Star r)) \<longleftrightarrow>
          (\<exists>u v. s = u @ v \<and> u \<in> lang (deriv c r) \<and> v \<in> star (lang r))"
    by (simp add: in_conc)
  also have "\<dots> \<longleftrightarrow> (\<exists>u v. s = u @ v \<and> c # u \<in> lang r \<and> v \<in> star (lang r))"
    by (simp add: Star)
  also have "\<dots> \<longleftrightarrow> c # s \<in> lang (Star r)"
    by (simp add: head_star)
  finally show ?case .
qed auto

lemma regexp_test_lang: "regexp_test r s \<longleftrightarrow> s \<in> lang r"
  unfolding regexp_test_def
  by (induction s arbitrary: r) (simp_all add: nullable_lang deriv_lang)

text \<open>The schema accepts \<open>alice@example.com\<close> and \<open>bob@example.com\<close>; it refuses
  \<open>alice@example.info\<close>, whose last label has four characters.\<close>

lemma email_alice: "regexp_test email_match ''alice@example.com''"
  by (simp add: regexp_test_def email_match_def labels_def suffixes_def OneOrMore_def
        Optional_def is_word_def)

lemma email_bob: "regexp_test email_match ''bob@example.com''"
  by (simp add: regexp_test_def email_match_def labels_def suffixes_def OneOrMore_def
        Optional_def is_word_def)

lemma email_info: "\<not> regexp_test email_match ''alice@example.info''"
  by (simp add: regexp_test_def email_match_def labels_def suffixes_def OneOrMore_def
        Optional_def is_word_def)

lemma alice_valid:
  "validate_User (trim ''Alice'') (toLowerCase ''Alice@Example.com'') ''Password1!''"
proof -
  have "trim ''Alice'' = ''Alice''" by code_simp
  moreover have "toLowerCase ''Alice@Example.com'' = ''alice@example.com''" by code_simp
  ultimately show ?thesis
    using email_alice by (simp add: validate_User_def validate_password_def)
qed

lemma bob_valid:
  "validate_User (trim ''Bob'') (toLowerCase ''bob@example.com'') ''Password2!''"
proof -
  have "trim ''Bob'' = ''Bob''" by code_simp
  moreover have "toLowerCase ''bob@example.com'' = ''bob@example.com''" by code_simp
  ultimately show ?thesis
    using email_bob by (simp add: validate_User_def validate_password_def)
qed

subsection \<open>The store\<close>

lemma find_holds: "find P xs = Some u \<Longrightarrow> P u"
  by (induction xs) (auto split: if_splits)

lemma find_in_set: "find P xs = Some u \<Longrightarrow> u \<in> set xs"
  by (induction xs) (auto split: if_splits)

lemma find_snoc: "find P xs = None \<Longrightarrow> P u \<Longrightarrow> find P (xs @ [u]) = Some u"
  by (induction xs) (auto split: if_splits)

lemma find_map_replace:
  "find P xs = Some u \<Longrightarrow> Q u \<Longrightarrow> P u' \<Longrightarrow>
   find P (map (\<lambda>x. if Q x then u' else x) xs) = Some u'"
  by (induction xs) (auto split: if_splits)

text \<open>After a write, a lookup by \<open>_id\<close> or by email returns the written document. No
  uniqueness of \<open>_id\<close> is needed: the first match of the email is either the written
  document's predecessor or an earlier document with the same \<open>_id\<close>, and both are
  replaced.\<close>

lemma findById_persist:
  assumes "findById db (user_id u') = Some u"
  shows "findById (persist db u') (user_id u') = Some u'"
proof -
  have "user_id u = user_id u'"
    using assms find_holds[of "\<lambda>x. user_id x = user_id u'" db u] by (simp add: findById_def)
  then show ?thesis
    using assms
      find_map_replace[of "\<lambda>x. user_id x = user_id u'" db u "\<lambda>x. user_id x = user_id u'" u']
    by (simp add: findById_def persist_def)
qed

lemma findOne_persist:
  assumes "findOne db e = Some u" "user_id u' = user_id u" "email u' = email u"
  shows "findOne (persist db u') e = Some u'"
proof -
  have "email u = toLowerCase e"
    using assms(1) find_holds[of "\<lambda>x. email x = toLowerCase e" db u] by (simp add: findOne_def)
  then show ?thesis
    using assms
      find_map_replace[of "\<lambda>x. email x = toLowerCase e" db u "\<lambda>x. user_id x = user_id u'" u']
    by (simp add: findOne_def persist_def)
qed

subsection \<open>Responses and projections\<close>

lemma statusCode_reply [simp]: "statusCode (reply c s m) = c"
  by (simp add: reply_def)

lemma statusCode_reply_tokens [simp]: "statusCode (reply_tokens c m t rt) = c"
  by (simp add: reply_tokens_def)

lemma isLocked_select [simp]: "isLocked now (select_plus_password u) = isLocked now u"
  by (simp add: isLocked_def select_plus_password_def)

lemma isActive_select [simp]: "isActive (select_plus_password u) = isActive u"
  by (simp add: select_plus_password_def)

lemma comparePassword_select [simp]:
  "comparePassword pw (select_plus_password u) = comparePassword pw u"
  by (simp add: comparePassword_def select_plus_password_def)

lemma incLoginAttempts_select [simp]:
  "incLoginAttempts now (select_plus_password u) s = incLoginAttempts now u s"
  by (simp add: incLoginAttempts_def select_plus_password_def isLocked_def)

lemma comparePassword_attempts [simp]:
  "comparePassword pw (u\<lparr>loginAttempts := n\<rparr>) = comparePassword pw u"
  by (simp add: comparePassword_def)

subsection \<open>The session list\<close>

lemma length_slice_last: "length (slice_last n xs) \<le> n"
  by (simp add: slice_last_def)

lemma slice_last_id: "length xs \<le> n \<Longrightarrow> slice_last n xs = xs"
  by (simp add: slice_last_def)

lemma refreshTokens_generate:
  "refreshTokens (snd (generateRefreshToken cfg now u)) =
     slice_last 5 (refreshTokens u @ [\<lparr>token = refresh_jwt cfg now u, createdAt = now\<rparr>])"
  by (simp add: generateRefreshToken_def Let_def slice_last_id)

lemma fst_generate: "fst (generateRefreshToken cfg now u) = refresh_jwt cfg now u"
  by (simp add: generateRefreshToken_def Let_def)

lemma generate_capped: "length (refreshTokens (snd (generateRefreshToken cfg now u))) \<le> 5"
  by (simp add: refreshTokens_generate length_slice_last)

lemma gen_fields [simp]:
  "user_id (snd (generateRefreshToken cfg now s)) = user_id s"
  "email (snd (generateRefreshToken cfg now s)) = email s"
  "loginAttempts (snd (generateRefreshToken cfg now s)) = loginAttempts s"
  "lockUntil (snd (generateRefreshToken cfg now s)) = lockUntil s"
  "isActive (snd (generateRefreshToken cfg now s)) = isActive s"
  "password (snd (generateRefreshToken cfg now s)) = password s"
  by (simp_all add: generateRefreshToken_def Let_def)

lemma capped_persist:
  "tokens_capped db \<Longrightarrow> length (refreshTokens u) \<le> 5 \<Longrightarrow> tokens_capped (persist db u)"
  by (auto simp: tokens_capped_def persist_def list_all_iff)

lemma capped_insert:
  "tokens_capped db \<Longrightarrow> length (refreshTokens u) \<le> 5 \<Longrightarrow> tokens_capped (insert_user db u)"
  by (auto simp: tokens_capped_def insert_user_def list_all_iff)

lemma capped_find:
  "tokens_capped db \<Longrightarrow> find P db = Some u \<Longrightarrow> length (refreshTokens u) \<le> 5"
  by (auto simp: tokens_capped_def list_all_iff find_Some_iff)

lemma incLoginAttempts_tokens: "refreshTokens (incLoginAttempts now u s) = refreshTokens s"
  by (simp add: incLoginAttempts_def)

lemma register_capped:
  "tokens_capped db \<Longrightarrow> tokens_capped (fst (register cfg now oid salt db nm em pw))"
  by (auto simp: register_def Let_def create_User_def generate_capped
           intro!: capped_persist capped_insert split: option.splits)

lemma login_capped: "tokens_capped db \<Longrightarrow> tokens_capped (fst (login cfg now db em pw))"
  by (auto simp: login_def login_success_def Let_def generate_capped incLoginAttempts_tokens
                 findOne_def
           intro!: capped_persist dest: capped_find split: option.splits sum.splits)

lemma refresh_capped: "tokens_capped db \<Longrightarrow> tokens_capped (fst (refresh cfg now db tk))"
  by (auto simp: refresh_def refresh_success_def Let_def generate_capped
           intro!: capped_persist split: option.splits sum.splits)

text \<open>The concrete states are reached by the routes themselves.\<close>

lemma register_accepts:
  "findOne db em = None \<Longrightarrow> validate_User (trim nm) (toLowerCase em) pw \<Longrightarrow>
   register cfg now oid salt db nm em pw
     = (persist (insert_user db (create_User cfg now oid salt nm em pw))
          (snd (generateRefreshToken cfg now (create_User cfg now oid salt nm em pw))),
        reply_tokens 201 ''User registered successfully''
          (generateAuthToken cfg now (create_User cfg now oid salt nm em pw))
          (refresh_jwt cfg now (create_User cfg now oid salt nm em pw)))"
  by (simp add: register_def Let_def fst_generate)

lemma register_refuses:
  "findOne db em = None \<Longrightarrow> \<not> validate_User (trim nm) (toLowerCase em) pw \<Longrightarrow>
   register cfg now oid salt db nm em pw = (db, validation_error)"
  by (simp add: register_def)

lemma register_info_refused:
  "register cfg0 1000 1 7 [] ''Alice'' ''alice@example.info'' ''Password1!'' = ([], validation_error)"
proof -
  have "findOne [] ''alice@example.info'' = None" by code_simp
  moreover have "toLowerCase ''alice@example.info'' = ''alice@example.info''" by code_simp
  ultimately show ?thesis
    using email_info by (simp add: register_refuses validate_User_def)
qed

lemma register_alice:
  "fst (register cfg0 1000 1 7 [] ''Alice'' ''Alice@Example.com'' ''Password1!'') = [alice]"
proof -
  have "findOne [] ''Alice@Example.com'' = None" by code_simp
  moreover have
    "persist (insert_user [] (create_User cfg0 1000 1 7 ''Alice'' ''Alice@Example.com'' ''Password1!''))
       (snd (generateRefreshToken cfg0 1000
               (create_User cfg0 1000 1 7 ''Alice'' ''Alice@Example.com'' ''Password1!'')))
     = [alice]" by code_simp
  ultimately show ?thesis using alice_valid by (simp add: register_accepts)
qed

lemma logins_alice5:
  "login_all cfg0 [alice] ''alice@example.com''
     [(2000, ''Password1!''), (3000, ''Password1!''), (4000, ''Password1!''), (5000, ''Password1!'')]
   = [alice5]"
  by code_simp

subsection \<open>The paths of \<open>POST /login\<close>\<close>

lemma login_unknown: "findOne db em = None \<Longrightarrow> login cfg now db em pw = (db, invalid_credentials)"
  by (simp add: login_def invalid_credentials_def)

lemma login_locked:
  "findOne db em = Some u \<Longrightarrow> isLocked now u \<Longrightarrow> login cfg now db em pw = (db, locked_reply)"
  by (simp add: login_def locked_reply_def)

lemma login_deactivated:
  "findOne db em = Some u \<Longrightarrow> \<not> isLocked now u \<Longrightarrow> \<not> isActive u \<Longrightarrow>
   login cfg now db em pw = (db, reply 401 ''fail'' ''Account is deactivated'')"
  by (simp add: login_def)

lemma login_wrong_password:
  "findOne db em = Some u \<Longrightarrow> \<not> isLocked now u \<Longrightarrow> isActive u \<Longrightarrow>
   comparePassword pw u = Inr False \<Longrightarrow>
   login cfg now db em pw = (persist db (incLoginAttempts now u u), invalid_credentials)"
  by (simp add: login_def invalid_credentials_def)

lemma login_right_password:
  "findOne db em = Some u \<Longrightarrow> \<not> isLocked now u \<Longrightarrow> isActive u \<Longrightarrow>
   comparePassword pw u = Inr True \<Longrightarrow>
   login cfg now db em pw = login_success cfg now db u"
  by (simp add: login_def)

lemma login_no_password:
  "findOne db em = Some u \<Longrightarrow> \<not> isLocked now u \<Longrightarrow> isActive u \<Longrightarrow>
   comparePassword pw u = Inl e \<Longrightarrow>
   login cfg now db em pw = (db, internal_error)"
  by (simp add: login_def)

lemma inc_id_email [simp]:
  "user_id (incLoginAttempts now t s) = user_id s" "email (incLoginAttempts now t s) = email s"
  "isActive (incLoginAttempts now t s) = isActive s" "password (incLoginAttempts now t s) = password s"
  by (simp_all add: incLoginAttempts_def)

lemma findOne_after_failure:
  "findOne db em = Some u \<Longrightarrow> findOne (persist db (incLoginAttempts now u u)) em = Some (incLoginAttempts now u u)"
  by (rule findOne_persist) simp_all

lemma inc_expired:
  "lockUntil u = Some l \<Longrightarrow> l < now \<Longrightarrow> incLoginAttempts now u u = u\<lparr>loginAttempts := 1, lockUntil := None\<rparr>"
  by (simp add: incLoginAttempts_def)

lemma inc_below_max:
  "\<not> isLocked now u \<Longrightarrow> (case lockUntil u of None \<Rightarrow> True | Some l \<Rightarrow> now \<le> l) \<Longrightarrow> loginAttempts u + 1 < 5 \<Longrightarrow>
   incLoginAttempts now u u = u\<lparr>loginAttempts := loginAttempts u + 1\<rparr>"
  by (auto simp: incLoginAttempts_def maxAttempts_def split: option.splits)

lemma inc_reach_max:
  "\<not> isLocked now u \<Longrightarrow> (case lockUntil u of None \<Rightarrow> True | Some l \<Rightarrow> now \<le> l) \<Longrightarrow> 5 \<le> loginAttempts u + 1 \<Longrightarrow>
   incLoginAttempts now u u = u\<lparr>loginAttempts := loginAttempts u + 1, lockUntil := Some (now + 7200000)\<rparr>"
  by (auto simp: incLoginAttempts_def maxAttempts_def lockTime_def split: option.splits)

lemma isLocked_None: "lockUntil u = None \<Longrightarrow> \<not> isLocked now u"
  by (simp add: isLocked_def)

lemma failures_count:
  "findOne db em = Some u \<Longrightarrow> isActive u \<Longrightarrow> lockUntil u = None \<Longrightarrow>
   loginAttempts u + int (length ps) < 5 \<Longrightarrow>
   list_all (\<lambda>p. comparePassword (snd p) u = Inr False) ps \<Longrightarrow>
   findOne (login_all cfg db em ps) em = Some (u\<lparr>loginAttempts := loginAttempts u + int (length ps)\<rparr>)"
proof (induction ps arbitrary: db u)
  case Nil
  then show ?case by simp
next
  case (Cons p ps)
  obtain now pw where p: "p = (now, pw)" by (cases p)
  let ?u = "u\<lparr>loginAttempts := loginAttempts u + 1\<rparr>"
  have nl: "\<not> isLocked now u" using Cons.prems(3) by (simp add: isLocked_None)
  have wrong: "comparePassword pw u = Inr False" using Cons.prems(5) p by simp
  have inc: "incLoginAttempts now u u = ?u"
    using nl Cons.prems(3,4) by (intro inc_below_max) simp_all
  have step: "login cfg now db em pw = (persist db ?u, invalid_credentials)"
    using login_wrong_password[OF Cons.prems(1) nl Cons.prems(2) wrong] inc by simp
  have found: "findOne (persist db ?u) em = Some ?u"
    using findOne_after_failure[OF Cons.prems(1), of now] inc by simp
  have "findOne (login_all cfg (persist db ?u) em ps) em
          = Some (?u\<lparr>loginAttempts := loginAttempts ?u + int (length ps)\<rparr>)"
    using Cons.prems by (intro Cons.IH[OF found]) (simp_all add: list_all_iff)
  then show ?case using step p by (simp add: add.assoc)
qed

lemma login_all_append:
  "login_all cfg db em (xs @ ys) = login_all cfg (login_all cfg db em xs) em ys"
  by (induction xs arbitrary: db) auto

lemma fifth_failure_locks:
  assumes found: "findOne db em = Some u" and act: "isActive u"
    and fresh: "loginAttempts u = 0" "lockUntil u = None"
    and four: "length ps = 4"
    and wrong: "list_all (\<lambda>p. comparePassword (snd p) u = Inr False) (ps @ [(t5, p5)])"
  shows "findOne (login_all cfg db em (ps @ [(t5, p5)])) em
           = Some (u\<lparr>loginAttempts := 5, lockUntil := Some (t5 + 7200000)\<rparr>)"
proof -
  let ?u4 = "u\<lparr>loginAttempts := 4\<rparr>"
  let ?db4 = "login_all cfg db em ps"
  have f4: "findOne ?db4 em = Some ?u4"
    using failures_count[OF found act fresh(2), of ps cfg] fresh(1) four wrong by simp
  have nl: "\<not> isLocked t5 ?u4" using fresh(2) by (simp add: isLocked_def)
  have inc: "incLoginAttempts t5 ?u4 ?u4 = ?u4\<lparr>loginAttempts := loginAttempts ?u4 + 1, lockUntil := Some (t5 + 7200000)\<rparr>"
    using nl fresh(2) by (intro inc_reach_max) simp_all
  have w5: "comparePassword p5 ?u4 = Inr False" using wrong by simp
  have step: "login cfg t5 ?db4 em p5 = (persist ?db4 (incLoginAttempts t5 ?u4 ?u4), invalid_credentials)"
    using act by (intro login_wrong_password[OF f4 nl _ w5]) simp
  have "findOne (persist ?db4 (incLoginAttempts t5 ?u4 ?u4)) em = Some (incLoginAttempts t5 ?u4 ?u4)"
    by (rule findOne_after_failure[OF f4])
  then show ?thesis using step inc by (simp add: login_all_append)
qed

lemma login_success_found:
  assumes "findOne db em = Some u"
  shows "\<exists>u'. findOne (fst (login_success cfg now db u)) em = Some u' \<and>
           loginAttempts u' = (if loginAttempts u > 0 then 0 else loginAttempts u) \<and>
           lockUntil u' = (if loginAttempts u > 0 then None else lockUntil u)"
proof -
  let ?s2 = "(if loginAttempts u > 0 then u\<lparr>loginAttempts := 0, lockUntil := None\<rparr> else u)\<lparr>lastLogin := now\<rparr>"
  let ?u' = "snd (generateRefreshToken cfg now ?s2)"
  have db: "fst (login_success cfg now db u) = persist db ?u'"
    by (simp add: login_success_def Let_def)
  have "findOne (persist db ?u') em = Some ?u'"
    by (rule findOne_persist[OF assms]) simp_all
  then show ?thesis using db by auto
qed

lemma login_success_response:
  "snd (login_success cfg now db u) =
     reply_tokens 200 ''Login successful''
       (generateAuthToken cfg now u) (refresh_jwt cfg now u)"
  by (simp add: login_success_def Let_def generateAuthToken_def generateRefreshToken_def refresh_jwt_def)

lemma login_increment_only_on_wrong_password:
  assumes "findOne db em = Some u"
    and "findOne (fst (login cfg now db em pw)) em = Some u'"
    and "loginAttempts u < loginAttempts u'"
  shows "\<not> isLocked now u \<and> isActive u \<and> comparePassword pw u = Inr False \<and>
         snd (login cfg now db em pw) = invalid_credentials"
proof -
  have nl: "\<not> isLocked now u"
    using assms login_locked[OF assms(1), of now cfg pw] by auto
  have act: "isActive u"
  proof (rule ccontr)
    assume "\<not> isActive u"
    then have "fst (login cfg now db em pw) = db"
      using login_deactivated[OF assms(1) nl, of cfg pw] by simp
    then show False using assms by simp
  qed
  have "comparePassword pw u = Inr False"
  proof (cases "comparePassword pw u")
    case (Inl e)
    then show ?thesis using assms login_no_password[OF assms(1) nl act Inl, of cfg] by auto
  next
    case (Inr b)
    show ?thesis
    proof (cases b)
      case True
      then have "login cfg now db em pw = login_success cfg now db u"
        using login_right_password[OF assms(1) nl act] Inr by simp
      then show ?thesis
        using login_success_found[OF assms(1), of cfg now] assms(2,3) by (auto split: if_splits)
    next
      case False
      then show ?thesis using Inr by simp
    qed
  qed
  then show ?thesis
    using nl act login_wrong_password[OF assms(1) nl act, of pw cfg] by simp
qed

lemma inc_cases:
  "\<not> isLocked now u \<Longrightarrow> \<not> lock_elapsed now u \<Longrightarrow>
     loginAttempts (incLoginAttempts now u u) = loginAttempts u + 1 \<and>
     lockUntil (incLoginAttempts now u u)
       = (if 5 \<le> loginAttempts u + 1 then Some (now + 2 * 60 * 60 * 1000) else lockUntil u)"
  by (auto simp: incLoginAttempts_def lock_elapsed_def maxAttempts_def lockTime_def split: option.splits)

lemma inc_elapsed:
  "lock_elapsed now u \<Longrightarrow>
     loginAttempts (incLoginAttempts now u u) = 1 \<and> lockUntil (incLoginAttempts now u u) = None"
  by (auto simp: incLoginAttempts_def lock_elapsed_def split: option.splits)

text \<open>
  C2. For an account that is not locked, a login that fails the password comparison adds
  one to \<open>loginAttempts\<close>; the fifth consecutive failure sets \<open>lockUntil\<close> two hours
  ahead; while \<open>lockUntil\<close> is in the future every login, whatever the password, is
  answered 423 and leaves the store alone; and the first failure after \<open>lockUntil\<close> has
  passed sets \<open>loginAttempts\<close> to 1 and clears the lock.
\<close>

theorem lockout_guard:
  assumes found: "findOne db em = Some u"
  shows
   "(isLocked now u \<longrightarrow> login cfg now db em pw = (db, locked_reply)) \<and>
    (\<not> isLocked now u \<and> isActive u \<and> comparePassword pw u = Inr False \<longrightarrow>
       snd (login cfg now db em pw) = invalid_credentials \<and>
       findOne (fst (login cfg now db em pw)) em = Some (incLoginAttempts now u u)) \<and>
    (\<not> isLocked now u \<and> \<not> lock_elapsed now u \<longrightarrow>
       loginAttempts (incLoginAttempts now u u) = loginAttempts u + 1 \<and>
       lockUntil (incLoginAttempts now u u)
         = (if 5 \<le> loginAttempts u + 1 then Some (now + 2 * 60 * 60 * 1000) else lockUntil u)) \<and>
    (lock_elapsed now u \<longrightarrow>
       loginAttempts (incLoginAttempts now u u) = 1 \<and> lockUntil (incLoginAttempts now u u) = None) \<and>
    (isActive u \<and> loginAttempts u = 0 \<and> lockUntil u = None \<and> length ps = 4 \<and>
     list_all (\<lambda>p. comparePassword (snd p) u = Inr False) (ps @ [(t5, p5)]) \<longrightarrow>
       findOne (login_all cfg db em (ps @ [(t5, p5)])) em
         = Some (u\<lparr>loginAttempts := 5, lockUntil := Some (t5 + 2 * 60 * 60 * 1000)\<rparr>) \<and>
       (\<forall>t pw'. t < t5 + 2 * 60 * 60 * 1000 \<longrightarrow>
          login cfg t (login_all cfg db em (ps @ [(t5, p5)])) em pw'
            = (login_all cfg db em (ps @ [(t5, p5)]), locked_reply)))"
proof -
  have locked: "isLocked now u \<longrightarrow> login cfg now db em pw = (db, locked_reply)"
    using login_locked[OF found] by blast
  have wrong: "\<not> isLocked now u \<and> isActive u \<and> comparePassword pw u = Inr False \<longrightarrow>
       snd (login cfg now db em pw) = invalid_credentials \<and>
       findOne (fst (login cfg now db em pw)) em = Some (incLoginAttempts now u u)"
    using login_wrong_password[OF found, of now pw cfg] findOne_after_failure[OF found, of now]
    by auto
  have seq: "isActive u \<and> loginAttempts u = 0 \<and> lockUntil u = None \<and> length ps = 4 \<and>
     list_all (\<lambda>p. comparePassword (snd p) u = Inr False) (ps @ [(t5, p5)]) \<longrightarrow>
       findOne (login_all cfg db em (ps @ [(t5, p5)])) em
         = Some (u\<lparr>loginAttempts := 5, lockUntil := Some (t5 + 2 * 60 * 60 * 1000)\<rparr>) \<and>
       (\<forall>t pw'. t < t5 + 2 * 60 * 60 * 1000 \<longrightarrow>
          login cfg t (login_all cfg db em (ps @ [(t5, p5)])) em pw'
            = (login_all cfg db em (ps @ [(t5, p5)]), locked_reply))"
  proof (intro impI)
    assume a: "isActive u \<and> loginAttempts u = 0 \<and> lockUntil u = None \<and> length ps = 4 \<and>
     list_all (\<lambda>p. comparePassword (snd p) u = Inr False) (ps @ [(t5, p5)])"
    let ?db5 = "login_all cfg db em (ps @ [(t5, p5)])"
    let ?u5 = "u\<lparr>loginAttempts := 5, lockUntil := Some (t5 + 2 * 60 * 60 * 1000)\<rparr>"
    have f5: "findOne ?db5 em = Some ?u5"
      using fifth_failure_locks[OF found, of ps t5 p5 cfg] a by simp
    have "\<forall>t pw'. t < t5 + 2 * 60 * 60 * 1000 \<longrightarrow> login cfg t ?db5 em pw' = (?db5, locked_reply)"
    proof (intro allI impI)
      fix t :: int and pw'
      assume "t < t5 + 2 * 60 * 60 * 1000"
      then have "isLocked t ?u5" by (simp add: isLocked_def)
      then show "login cfg t ?db5 em pw' = (?db5, locked_reply)"
        by (rule login_locked[OF f5])
    qed
    then show "findOne ?db5 em = Some ?u5 \<and>
       (\<forall>t pw'. t < t5 + 2 * 60 * 60 * 1000 \<longrightarrow> login cfg t ?db5 em pw' = (?db5, locked_reply))"
      using f5 by blast
  qed
  show ?thesis
    using locked wrong seq inc_cases[of now u] inc_elapsed[of now u] by blast
qed

text \<open>Witness: Alice, fresh at 1000 ms, submits five wrong passwords, the last at
  6000 ms; at 7000 ms the right password is answered 423; a wrong password after the two
  hours restarts the counter at 1.\<close>

theorem lockout_guard_witness:
  "findOne [alice] ''alice@example.com'' = Some alice \<and>
   \<not> isLocked 2000 alice \<and> \<not> lock_elapsed 2000 alice \<and> isActive alice \<and>
   comparePassword ''wrong1'' alice = Inr False \<and>
   snd (login cfg0 2000 [alice] ''alice@example.com'' ''wrong1'') = invalid_credentials \<and>
   loginAttempts (incLoginAttempts 2000 alice alice) = 1 \<and>
   loginAttempts alice = 0 \<and> lockUntil alice = None \<and> length four_wrong = 4 \<and>
   list_all (\<lambda>p. comparePassword (snd p) alice = Inr False) (four_wrong @ [(6000, ''wrong5'')]) \<and>
   login_all cfg0 [alice] ''alice@example.com'' (four_wrong @ [(6000, ''wrong5'')]) = [alice_locked] \<and>
   findOne [alice_locked] ''alice@example.com'' = Some alice_locked \<and>
   comparePassword ''Password1!'' alice_locked = Inr True \<and>
   isLocked 7000 alice_locked \<and>
   login cfg0 7000 [alice_locked] ''alice@example.com'' ''Password1!'' = ([alice_locked], locked_reply) \<and>
   lock_elapsed 7207000 alice_locked \<and>
   loginAttempts (incLoginAttempts 7207000 alice_locked alice_locked) = 1 \<and>
   lockUntil (incLoginAttempts 7207000 alice_locked alice_locked) = None"
proof -
  have f: "findOne [alice] ''alice@example.com'' = Some alice" by code_simp
  have h1: "\<not> isLocked 2000 alice" "\<not> lock_elapsed 2000 alice" "isActive alice"
    "comparePassword ''wrong1'' alice = Inr False" "loginAttempts alice = 0" "lockUntil alice = None"
    "length four_wrong = 4"
    by code_simp+
  have h2: "list_all (\<lambda>p. comparePassword (snd p) alice = Inr False) (four_wrong @ [(6000, ''wrong5'')])"
    by code_simp
  have h3: "login_all cfg0 [alice] ''alice@example.com'' (four_wrong @ [(6000, ''wrong5'')]) = [alice_locked]"
    by code_simp
  have f': "findOne [alice_locked] ''alice@example.com'' = Some alice_locked" by code_simp
  have h4: "isLocked 7000 alice_locked" "lock_elapsed 7207000 alice_locked"
    "comparePassword ''Password1!'' alice_locked = Inr True"
    by code_simp+
  note a = lockout_guard[OF f, of 2000 cfg0 "''wrong1''" four_wrong 6000 "''wrong5''"]
  note b = lockout_guard[OF f', of 7000 cfg0 "''Password1!''"]
  note c = lockout_guard[OF f', of 7207000]
  show ?thesis
    using f h1 h2 h3 f' h4 a b c by simp
qed

text \<open>
  C7. The response to a login for an email with no account and the response to a login
  that fails the password comparison are the same response: 401, \<open>fail\<close>,
  \<open>Invalid email or password\<close>.
\<close>

theorem login_failure_uniform:
  assumes "findOne db1 em1 = None"
    and "findOne db2 em2 = Some u" and "\<not> isLocked now2 u" and "isActive u"
    and "comparePassword pw2 u = Inr False"
  shows "snd (login cfg now1 db1 em1 pw1) = snd (login cfg now2 db2 em2 pw2) \<and>
         snd (login cfg now1 db1 em1 pw1)
           = \<lparr>statusCode = 401, status = ''fail'', message = ''Invalid email or password'',
              r_token = None, r_refreshToken = None\<rparr>"
  using login_unknown[OF assms(1), of cfg now1 pw1] login_wrong_password[OF assms(2-5), of cfg]
  by (simp add: invalid_credentials_def reply_def)

text \<open>Witness: an empty store against Alice's account with a wrong password.\<close>

theorem login_failure_uniform_witness:
  "findOne [] ''alice@example.com'' = None \<and>
   findOne [alice] ''alice@example.com'' = Some alice \<and> \<not> isLocked 2000 alice \<and> isActive alice \<and>
   comparePassword ''wrong1'' alice = Inr False \<and>
   snd (login cfg0 2000 [] ''alice@example.com'' ''Password1!'')
     = snd (login cfg0 2000 [alice] ''alice@example.com'' ''wrong1'')"
proof -
  have a: "findOne [] ''alice@example.com'' = None" by code_simp
  have b: "findOne [alice] ''alice@example.com'' = Some alice" by code_simp
  have c: "\<not> isLocked 2000 alice" by code_simp
  have d: "isActive alice" by code_simp
  have e: "comparePassword ''wrong1'' alice = Inr False" by code_simp
  show ?thesis
    using a b c d e login_failure_uniform[OF a b c d e, of cfg0 2000 "''Password1!''"] by simp
qed

text \<open>
  C10. A login for an unknown email, for a locked account or for a deactivated account
  leaves the store unchanged; and whenever a login leaves the addressed account with a
  larger \<open>loginAttempts\<close>, that login reached the password comparison and failed it.
\<close>

theorem login_attempts_frame:
  "(findOne db em = None \<longrightarrow> fst (login cfg now db em pw) = db) \<and>
   (\<forall>u. findOne db em = Some u \<and> isLocked now u \<longrightarrow> fst (login cfg now db em pw) = db) \<and>
   (\<forall>u. findOne db em = Some u \<and> \<not> isActive u \<longrightarrow> fst (login cfg now db em pw) = db) \<and>
   (\<forall>u u'. findOne db em = Some u \<and> findOne (fst (login cfg now db em pw)) em = Some u' \<and>
            loginAttempts u < loginAttempts u' \<longrightarrow>
      \<not> isLocked now u \<and> isActive u \<and> comparePassword pw u = Inr False \<and>
      snd (login cfg now db em pw) = invalid_credentials)"
proof -
  have a: "findOne db em = None \<longrightarrow> fst (login cfg now db em pw) = db"
    by (simp add: login_unknown)
  have b: "\<forall>u. findOne db em = Some u \<and> isLocked now u \<longrightarrow> fst (login cfg now db em pw) = db"
    by (simp add: login_locked)
  have c: "\<forall>u. findOne db em = Some u \<and> \<not> isActive u \<longrightarrow> fst (login cfg now db em pw) = db"
  proof (intro allI impI)
    fix u assume u: "findOne db em = Some u \<and> \<not> isActive u"
    show "fst (login cfg now db em pw) = db"
    proof (cases "isLocked now u")
      case True
      then show ?thesis using u by (simp add: login_locked)
    next
      case False
      then show ?thesis using u by (simp add: login_deactivated)
    qed
  qed
  have d: "\<forall>u u'. findOne db em = Some u \<and> findOne (fst (login cfg now db em pw)) em = Some u' \<and>
            loginAttempts u < loginAttempts u' \<longrightarrow>
      \<not> isLocked now u \<and> isActive u \<and> comparePassword pw u = Inr False \<and>
      snd (login cfg now db em pw) = invalid_credentials"
    using login_increment_only_on_wrong_password by blast
  show ?thesis using a b c d by blast
qed

text \<open>Witness: an unknown email, the locked Alice, the deactivated Alice, and Alice with a
  wrong password.\<close>

theorem login_attempts_frame_witness:
  "findOne [alice] ''bob@example.com'' = None \<and>
   fst (login cfg0 2000 [alice] ''bob@example.com'' ''wrong1'') = [alice] \<and>
   findOne [alice_locked] ''alice@example.com'' = Some alice_locked \<and> isLocked 7000 alice_locked \<and>
   fst (login cfg0 7000 [alice_locked] ''alice@example.com'' ''wrong1'') = [alice_locked] \<and>
   findOne [alice_off] ''alice@example.com'' = Some alice_off \<and> \<not> isActive alice_off \<and>
   fst (login cfg0 2000 [alice_off] ''alice@example.com'' ''wrong1'') = [alice_off] \<and>
   findOne [alice] ''alice@example.com'' = Some alice \<and>
   findOne (fst (login cfg0 2000 [alice] ''alice@example.com'' ''wrong1'')) ''alice@example.com''
     = Some (alice\<lparr>loginAttempts := 1\<rparr>) \<and>
   loginAttempts alice < loginAttempts (alice\<lparr>loginAttempts := 1\<rparr>) \<and>
   comparePassword ''wrong1'' alice = Inr False \<and>
   snd (login cfg0 2000 [alice] ''alice@example.com'' ''wrong1'') = invalid_credentials"
proof -
  have a: "findOne [alice] ''bob@example.com'' = None" by code_simp
  have b: "findOne [alice_locked] ''alice@example.com'' = Some alice_locked" "isLocked 7000 alice_locked"
    by code_simp+
  have c: "findOne [alice_off] ''alice@example.com'' = Some alice_off" "\<not> isActive alice_off"
    by code_simp+
  have d: "findOne [alice] ''alice@example.com'' = Some alice" by code_simp
  have e: "findOne (fst (login cfg0 2000 [alice] ''alice@example.com'' ''wrong1'')) ''alice@example.com''
     = Some (alice\<lparr>loginAttempts := 1\<rparr>)" by code_simp
  have g: "loginAttempts alice < loginAttempts (alice\<lparr>loginAttempts := 1\<rparr>)" by code_simp
  note t1 = login_attempts_frame[of "[alice]" "''bob@example.com''" cfg0 2000 "''wrong1''"]
  note t2 = login_attempts_frame[of "[alice_locked]" "''alice@example.com''" cfg0 7000 "''wrong1''"]
  note t3 = login_attempts_frame[of "[alice_off]" "''alice@example.com''" cfg0 2000 "''wrong1''"]
  note t4 = login_attempts_frame[of "[alice]" "''alice@example.com''" cfg0 2000 "''wrong1''"]
  show ?thesis
    using a b c d e g t1 t2 t3 t4 by blast
qed

subsection \<open>Registration followed by login\<close>

lemma register_created:
  assumes "findOne db em = None" and "validate_User (trim nm) (toLowerCase em) pw"
  shows "findOne (fst (register cfg t1 oid salt db nm em pw)) em
           = Some (snd (generateRefreshToken cfg t1 (create_User cfg t1 oid salt nm em pw)))"
proof -
  let ?u = "create_User cfg t1 oid salt nm em pw"
  let ?u2 = "snd (generateRefreshToken cfg t1 ?u)"
  have e: "email ?u = toLowerCase em" by (simp add: create_User_def)
  have "findOne (insert_user db ?u) em = Some ?u"
    using assms e by (simp add: findOne_def insert_user_def find_snoc)
  then have "findOne (persist (insert_user db ?u) ?u2) em = Some ?u2"
    by (rule findOne_persist) simp_all
  then show ?thesis using assms by (simp add: register_accepts)
qed

lemma register_status:
  "statusCode (snd (register cfg t1 oid salt db nm em pw)) = 201 \<longleftrightarrow>
     findOne db em = None \<and> validate_User (trim nm) (toLowerCase em) pw"
  by (simp add: register_def Let_def validation_error_def split: option.splits)

lemma access_token_valid:
  "0 < access_expiresIn cfg \<Longrightarrow>
   jwt_verify (generateAuthToken cfg now u) (JWT_SECRET cfg) now
     = Inr \<lparr>p_id = user_id u, p_email = Some (email u), p_role = Some (role u), p_type = None,
            p_iat = now div 1000, p_exp = Some (now div 1000 + access_expiresIn cfg)\<rparr>"
  by (simp add: generateAuthToken_def jwt_sign_def jwt_verify_def)

lemma register_then_login_aux:
  assumes "statusCode (snd (register cfg t1 oid salt db nm em pw)) = 201"
  shows "login cfg t2 (fst (register cfg t1 oid salt db nm em pw)) em pw
           = login_success cfg t2 (fst (register cfg t1 oid salt db nm em pw))
               (snd (generateRefreshToken cfg t1 (create_User cfg t1 oid salt nm em pw)))"
proof -
  let ?u2 = "snd (generateRefreshToken cfg t1 (create_User cfg t1 oid salt nm em pw))"
  have none: "findOne db em = None" and valid: "validate_User (trim nm) (toLowerCase em) pw"
    using assms by (simp_all add: register_status)
  have found: "findOne (fst (register cfg t1 oid salt db nm em pw)) em = Some ?u2"
    by (rule register_created[OF none valid])
  have nl: "\<not> isLocked t2 ?u2" by (simp add: isLocked_def create_User_def)
  have act: "isActive ?u2" by (simp add: create_User_def)
  have pw: "comparePassword pw ?u2 = Inr True"
    by (simp add: comparePassword_def create_User_def bcrypt_compare_def bcrypt_hash_def)
  show ?thesis by (rule login_right_password[OF found nl act pw])
qed

text \<open>
  C9. After a registration that succeeds (201), a login with the same email and password on
  the resulting store succeeds (200) and returns an access token that verifies against the
  access secret at the time of the login, carrying the new user's id and email. The
  configured access-token lifetime is taken to be positive, as the default of seven days is.
\<close>

theorem register_then_login:
  assumes "statusCode (snd (register cfg t1 oid salt db nm em pw)) = 201"
    and "0 < access_expiresIn cfg"
  shows "statusCode (snd (login cfg t2 (fst (register cfg t1 oid salt db nm em pw)) em pw)) = 200 \<and>
         (\<exists>tok claims.
            r_token (snd (login cfg t2 (fst (register cfg t1 oid salt db nm em pw)) em pw)) = Some tok \<and>
            jwt_verify tok (JWT_SECRET cfg) t2 = Inr claims \<and>
            p_id claims = oid \<and> p_email claims = Some (toLowerCase em) \<and>
            p_exp claims = Some (t2 div 1000 + access_expiresIn cfg))"
proof -
  let ?db1 = "fst (register cfg t1 oid salt db nm em pw)"
  let ?u2 = "snd (generateRefreshToken cfg t1 (create_User cfg t1 oid salt nm em pw))"
  have l: "login cfg t2 ?db1 em pw = login_success cfg t2 ?db1 ?u2"
    by (rule register_then_login_aux[OF assms(1)])
  have r: "snd (login cfg t2 ?db1 em pw)
             = reply_tokens 200 ''Login successful'' (generateAuthToken cfg t2 ?u2) (refresh_jwt cfg t2 ?u2)"
    using l by (simp add: login_success_response)
  have v: "jwt_verify (generateAuthToken cfg t2 ?u2) (JWT_SECRET cfg) t2
     = Inr \<lparr>p_id = user_id ?u2, p_email = Some (email ?u2), p_role = Some (role ?u2), p_type = None,
            p_iat = t2 div 1000, p_exp = Some (t2 div 1000 + access_expiresIn cfg)\<rparr>"
    by (rule access_token_valid[OF assms(2)])
  have "user_id ?u2 = oid" "email ?u2 = toLowerCase em" by (simp_all add: create_User_def)
  then show ?thesis using r v by (simp add: reply_tokens_def)
qed

text \<open>Witness: Alice registers with a mixed-case email and logs in one second later.\<close>

theorem register_then_login_witness:
  "statusCode (snd (register cfg0 1000 1 7 [] ''Alice'' ''Alice@Example.com'' ''Password1!'')) = 201 \<and>
   0 < access_expiresIn cfg0 \<and>
   fst (register cfg0 1000 1 7 [] ''Alice'' ''Alice@Example.com'' ''Password1!'') = [alice] \<and>
   statusCode (snd (login cfg0 2000 [alice] ''Alice@Example.com'' ''Password1!'')) = 200"
proof -
  have n: "findOne [] ''Alice@Example.com'' = None" by code_simp
  have a: "statusCode (snd (register cfg0 1000 1 7 [] ''Alice'' ''Alice@Example.com'' ''Password1!'')) = 201"
    using n alice_valid by (simp add: register_status)
  have b: "0 < access_expiresIn cfg0" by code_simp
  have c: "fst (register cfg0 1000 1 7 [] ''Alice'' ''Alice@Example.com'' ''Password1!'') = [alice]"
    by (rule register_alice)
  show ?thesis
    using a b c register_then_login[OF a b, of 2000] by simp
qed

subsection \<open>The paths of \<open>POST /refresh\<close>\<close>

lemma verify_not_empty: "verifyRefreshToken cfg now tok = Inr d \<Longrightarrow> \<not> falsy (Some tok)"
  by (auto simp: verifyRefreshToken_def jwt_verify_def falsy_def split: token.splits)

lemma refresh_success_status: "statusCode (snd (refresh_success cfg now db u)) = 200"
  by (simp add: refresh_success_def Let_def)

lemma refresh_status_iff:
  "statusCode (snd (refresh cfg now db (Some tok))) = 401 \<longleftrightarrow> refresh_rejected cfg now db tok"
  by (auto simp: refresh_def refresh_rejected_def refresh_success_status verify_not_empty
      split: sum.splits option.splits)

lemma refresh_status_cases:
  "statusCode (snd (refresh cfg now db tk)) = 401 \<or> statusCode (snd (refresh cfg now db tk)) = 200"
  by (auto simp: refresh_def refresh_success_status split: sum.splits option.splits)

lemma refresh_fail_frame:
  "statusCode (snd (refresh cfg now db tk)) = 401 \<Longrightarrow> fst (refresh cfg now db tk) = db"
  by (auto simp: refresh_def refresh_success_status split: sum.splits option.splits if_splits)

lemma absent_rejected:
  "\<not> list_ex (\<lambda>u. tokenExists u tok) db \<Longrightarrow> refresh_rejected cfg now db tok"
  by (auto simp: refresh_rejected_def findById_def list_ex_iff find_Some_iff split: sum.splits option.splits)

lemma refresh_success_db:
  "fst (refresh_success cfg now db u) = persist db (snd (generateRefreshToken cfg now (cleanupRefreshTokens cfg now u)))"
  by (simp add: refresh_success_def Let_def)

lemma refresh_accept:
  assumes "verifyRefreshToken cfg now tok = Inr decoded"
    and "findById db (p_id decoded) = Some stored"
    and "isActive stored" and "tokenExists stored tok"
  shows "refresh cfg now db (Some tok) = refresh_success cfg now db stored"
  using assms verify_not_empty[OF assms(1)] by (simp add: refresh_def)

lemma refresh_fail_status:
  "statusCode (snd (refresh cfg now db tk)) = 401 \<Longrightarrow> status (snd (refresh cfg now db tk)) = ''fail''"
  by (auto simp: refresh_def refresh_success_status reply_def split: sum.splits option.splits if_splits)

lemma absent_rejected': "\<not> holds_token db tok \<Longrightarrow> refresh_rejected cfg now db tok"
  by (simp add: holds_token_def absent_rejected)

text \<open>
  C3. \<open>POST /refresh\<close> answers a presented token with 401 exactly when the token fails
  verification against the refresh secret (signature or expiry), its owner does not exist,
  the owner is deactivated, or the token is not in the owner's stored list; otherwise it
  answers 200. A 401 leaves the store unchanged. In particular a token that no stored list
  contains is answered 401, and so is a request without a token.
\<close>

theorem refresh_rejection_iff:
  "(statusCode (snd (refresh cfg now db (Some tok))) = 401 \<longleftrightarrow> refresh_rejected cfg now db tok) \<and>
   (\<not> refresh_rejected cfg now db tok \<longrightarrow> statusCode (snd (refresh cfg now db (Some tok))) = 200) \<and>
   (statusCode (snd (refresh cfg now db tk)) = 401 \<longrightarrow>
      status (snd (refresh cfg now db tk)) = ''fail'' \<and> fst (refresh cfg now db tk) = db) \<and>
   (\<not> holds_token db tok \<longrightarrow> statusCode (snd (refresh cfg now db (Some tok))) = 401) \<and>
   statusCode (snd (refresh cfg now db None)) = 401"
proof -
  have iff: "statusCode (snd (refresh cfg now db (Some tok))) = 401 \<longleftrightarrow> refresh_rejected cfg now db tok"
    by (rule refresh_status_iff)
  have ok: "\<not> refresh_rejected cfg now db tok \<longrightarrow> statusCode (snd (refresh cfg now db (Some tok))) = 200"
    using iff refresh_status_cases[of cfg now db "Some tok"] by blast
  have frame: "statusCode (snd (refresh cfg now db tk)) = 401 \<longrightarrow>
      status (snd (refresh cfg now db tk)) = ''fail'' \<and> fst (refresh cfg now db tk) = db"
    using refresh_fail_status refresh_fail_frame by blast
  have absent: "\<not> holds_token db tok \<longrightarrow> statusCode (snd (refresh cfg now db (Some tok))) = 401"
    using iff absent_rejected' by blast
  have none: "statusCode (snd (refresh cfg now db None)) = 401"
    by (simp add: refresh_def)
  show ?thesis using iff ok frame absent none by blast
qed

text \<open>Witness: Alice's token of second 1 is accepted at 2000 ms, rejected once expired, and
  rejected after a logout without a token has cleared her list.\<close>

theorem refresh_rejection_iff_witness:
  "\<not> refresh_rejected cfg0 2000 [alice] (token (issued 1)) \<and>
   statusCode (snd (refresh cfg0 2000 [alice] (Some (token (issued 1))))) = 200 \<and>
   refresh_rejected cfg0 2592001000 [alice] (token (issued 1)) \<and>
   statusCode (snd (refresh cfg0 2592001000 [alice] (Some (token (issued 1))))) = 401 \<and>
   fst (refresh cfg0 2592001000 [alice] (Some (token (issued 1)))) = [alice] \<and>
   fst (logout cfg0 2000 [alice] (bearer_header access_token) None) = [alice\<lparr>refreshTokens := []\<rparr>] \<and>
   \<not> holds_token [alice\<lparr>refreshTokens := []\<rparr>] (token (issued 1)) \<and>
   statusCode (snd (refresh cfg0 2000 [alice\<lparr>refreshTokens := []\<rparr>] (Some (token (issued 1))))) = 401"
proof -
  have a: "\<not> refresh_rejected cfg0 2000 [alice] (token (issued 1))" by code_simp
  have b: "refresh_rejected cfg0 2592001000 [alice] (token (issued 1))" by code_simp
  have c: "fst (logout cfg0 2000 [alice] (bearer_header access_token) None) = [alice\<lparr>refreshTokens := []\<rparr>]"
    by code_simp
  have d: "\<not> holds_token [alice\<lparr>refreshTokens := []\<rparr>] (token (issued 1))" by code_simp
  show ?thesis
    using a b c d
      refresh_rejection_iff[of cfg0 2000 "[alice]" "token (issued 1)" "Some (token (issued 1))"]
      refresh_rejection_iff[of cfg0 2592001000 "[alice]" "token (issued 1)" "Some (token (issued 1))"]
      refresh_rejection_iff[of cfg0 2000 "[alice\<lparr>refreshTokens := []\<rparr>]" "token (issued 1)" None]
    by blast
qed

text \<open>
  C4, as stated, fails: Alice holds five live tokens and presents the oldest at 6000 ms.
  The refresh succeeds, the presented token still verifies, and the cap of five evicts it
  when the new token is pushed.
\<close>

theorem presented_token_evicted:
  "holds_token [alice5] (token (issued 1)) \<and>
   verifies cfg0 6000 (issued 1) \<and>
   statusCode (snd (refresh cfg0 6000 [alice5] (Some (token (issued 1))))) = 200 \<and>
   \<not> holds_token (fst (refresh cfg0 6000 [alice5] (Some (token (issued 1))))) (token (issued 1))"
  by code_simp

lemma verifies_presented:
  "verifyRefreshToken cfg now tok = Inr decoded \<Longrightarrow> tokenExists stored tok \<Longrightarrow>
   tokenExists (cleanupRefreshTokens cfg now stored) tok"
  by (auto simp: tokenExists_def cleanupRefreshTokens_def list_ex_iff verifies_def verifyRefreshToken_def)

lemma refresh_jwt_cleanup [simp]:
  "refresh_jwt cfg now (cleanupRefreshTokens cfg now' u) = refresh_jwt cfg now u"
  by (simp add: refresh_jwt_def cleanupRefreshTokens_def)

text \<open>
  C4, amended. On every successful refresh the owner's stored list becomes the last five
  entries of: the old entries that still verify, in order, followed by the new refresh
  token. The prune pass keeps the presented token, and the presented token is still stored
  after the call whenever fewer than five old entries verify; entries leave the list only
  because they no longer verify or, oldest first, because of the cap of five.
\<close>

theorem refresh_keeps_presented_below_cap:
  assumes "verifyRefreshToken cfg now tok = Inr decoded"
    and "findById db (p_id decoded) = Some stored"
    and "isActive stored" and "tokenExists stored tok"
  shows "statusCode (snd (refresh cfg now db (Some tok))) = 200 \<and>
         r_refreshToken (snd (refresh cfg now db (Some tok))) = Some (refresh_jwt cfg now stored) \<and>
         findById (fst (refresh cfg now db (Some tok))) (p_id decoded)
           = Some (stored\<lparr>refreshTokens :=
                     slice_last 5 (filter (verifies cfg now) (refreshTokens stored)
                                   @ [\<lparr>token = refresh_jwt cfg now stored, createdAt = now\<rparr>])\<rparr>) \<and>
         tokenExists (cleanupRefreshTokens cfg now stored) tok \<and>
         (length (filter (verifies cfg now) (refreshTokens stored)) < 5 \<longrightarrow>
            holds_token (fst (refresh cfg now db (Some tok))) tok)"
proof -
  let ?kept = "filter (verifies cfg now) (refreshTokens stored)"
  let ?new = "\<lparr>token = refresh_jwt cfg now stored, createdAt = now\<rparr>"
  let ?u' = "stored\<lparr>refreshTokens := slice_last 5 (?kept @ [?new])\<rparr>"
  have r: "refresh cfg now db (Some tok) = refresh_success cfg now db stored"
    by (rule refresh_accept[OF assms])
  have u': "snd (generateRefreshToken cfg now (cleanupRefreshTokens cfg now stored)) = ?u'"
    by (simp add: generateRefreshToken_def Let_def cleanupRefreshTokens_def slice_last_id refresh_jwt_def)
  have db': "fst (refresh cfg now db (Some tok)) = persist db ?u'"
    using r u' by (simp add: refresh_success_db)
  have idd: "user_id stored = p_id decoded"
    using assms(2) find_holds[of "\<lambda>u. user_id u = p_id decoded" db stored] by (simp add: findById_def)
  have found: "findById (persist db ?u') (p_id decoded) = Some ?u'"
    using findById_persist[of db ?u' stored] assms(2) idd by simp
  have kept: "tokenExists (cleanupRefreshTokens cfg now stored) tok"
    by (rule verifies_presented[OF assms(1,4)])
  have tok: "r_refreshToken (snd (refresh cfg now db (Some tok))) = Some (refresh_jwt cfg now stored)"
    using r by (simp add: refresh_success_def Let_def reply_tokens_def fst_generate)
  have below: "length ?kept < 5 \<longrightarrow> holds_token (fst (refresh cfg now db (Some tok))) tok"
  proof
    assume "length ?kept < 5"
    then have "slice_last 5 (?kept @ [?new]) = ?kept @ [?new]" by (simp add: slice_last_id)
    then have "tokenExists ?u' tok"
      using kept by (auto simp: tokenExists_def cleanupRefreshTokens_def list_ex_iff)
    moreover have "?u' \<in> set (persist db ?u')"
      using found find_in_set[of "\<lambda>u. user_id u = p_id decoded" "persist db ?u'" ?u']
      by (simp add: findById_def)
    ultimately show "holds_token (fst (refresh cfg now db (Some tok))) tok"
      using db' by (auto simp: holds_token_def list_ex_iff)
  qed
  show ?thesis
    using r refresh_success_status[of cfg now db stored] tok db' found kept below by simp
qed

text \<open>Witness: Alice, holding one token, presents it at 2000 ms.\<close>

theorem refresh_keeps_presented_below_cap_witness:
  "verifyRefreshToken cfg0 2000 (token (issued 1)) = Inr (case token (issued 1) of Signed k p \<Rightarrow> p) \<and>
   findById [alice] 1 = Some alice \<and> isActive alice \<and> tokenExists alice (token (issued 1)) \<and>
   length (filter (verifies cfg0 2000) (refreshTokens alice)) < 5 \<and>
   statusCode (snd (refresh cfg0 2000 [alice] (Some (token (issued 1))))) = 200 \<and>
   holds_token (fst (refresh cfg0 2000 [alice] (Some (token (issued 1))))) (token (issued 1))"
proof -
  have v: "verifyRefreshToken cfg0 2000 (token (issued 1)) = Inr (case token (issued 1) of Signed k p \<Rightarrow> p)"
    by code_simp
  have i: "p_id (case token (issued 1) of Signed k p \<Rightarrow> p) = 1" by code_simp
  have f: "findById [alice] 1 = Some alice" by code_simp
  have a: "isActive alice" by code_simp
  have t: "tokenExists alice (token (issued 1))" by code_simp
  have l: "length (filter (verifies cfg0 2000) (refreshTokens alice)) < 5" by code_simp
  show ?thesis
    using v f a t l refresh_keeps_presented_below_cap[OF v, of "[alice]" alice] i by simp
qed

subsection \<open>What the routes store in the session list\<close>

lemma slice_last_rev: "slice_last n xs = rev (take n (rev xs))"
  by (simp add: slice_last_def take_rev)

lemma refresh_jwt_id: "user_id a = user_id b \<Longrightarrow> refresh_jwt cfg now a = refresh_jwt cfg now b"
  by (simp add: refresh_jwt_def)

lemma register_stores:
  assumes "statusCode (snd (register cfg now oid salt db nm em pw)) = 201"
  shows "r_refreshToken (snd (register cfg now oid salt db nm em pw))
           = Some (refresh_jwt cfg now (create_User cfg now oid salt nm em pw)) \<and>
         (\<exists>u'. findOne (fst (register cfg now oid salt db nm em pw)) em = Some u' \<and>
               refreshTokens u'
                 = [\<lparr>token = refresh_jwt cfg now (create_User cfg now oid salt nm em pw),
                     createdAt = now\<rparr>])"
proof -
  let ?u = "create_User cfg now oid salt nm em pw"
  have none: "findOne db em = None" and valid: "validate_User (trim nm) (toLowerCase em) pw"
    using assms by (simp_all add: register_status)
  have "findOne (fst (register cfg now oid salt db nm em pw)) em
          = Some (snd (generateRefreshToken cfg now ?u))"
    by (rule register_created[OF none valid])
  moreover have "refreshTokens (snd (generateRefreshToken cfg now ?u))
                   = [\<lparr>token = refresh_jwt cfg now ?u, createdAt = now\<rparr>]"
    by (simp add: refreshTokens_generate slice_last_id create_User_def)
  moreover have "r_refreshToken (snd (register cfg now oid salt db nm em pw))
                   = Some (refresh_jwt cfg now ?u)"
    using register_accepts[OF none valid, of cfg now oid salt] by (simp add: reply_tokens_def)
  ultimately show ?thesis by simp
qed

lemma login_200:
  "findOne db em = Some u \<Longrightarrow> statusCode (snd (login cfg now db em pw)) = 200 \<Longrightarrow>
   login cfg now db em pw = login_success cfg now db u"
  by (auto simp: login_def Let_def internal_error_def split: sum.splits if_splits)

lemma login_stores:
  assumes "findOne db em = Some u" and "statusCode (snd (login cfg now db em pw)) = 200"
  shows "r_refreshToken (snd (login cfg now db em pw)) = Some (refresh_jwt cfg now u) \<and>
         (\<exists>u'. findOne (fst (login cfg now db em pw)) em = Some u' \<and>
               refreshTokens u'
                 = slice_last 5 (refreshTokens u
                                 @ [\<lparr>token = refresh_jwt cfg now u, createdAt = now\<rparr>]))"
proof -
  let ?s2 = "(if loginAttempts u > 0 then u\<lparr>loginAttempts := 0, lockUntil := None\<rparr> else u)
               \<lparr>lastLogin := now\<rparr>"
  let ?u' = "snd (generateRefreshToken cfg now ?s2)"
  have l: "login cfg now db em pw = login_success cfg now db u"
    by (rule login_200[OF assms])
  have db: "fst (login_success cfg now db u) = persist db ?u'"
    by (simp add: login_success_def Let_def)
  have found: "findOne (persist db ?u') em = Some ?u'"
    by (rule findOne_persist[OF assms(1)]) simp_all
  have j: "refresh_jwt cfg now ?s2 = refresh_jwt cfg now u"
    by (rule refresh_jwt_id) simp
  have list: "refreshTokens ?u'
                = slice_last 5 (refreshTokens u @ [\<lparr>token = refresh_jwt cfg now u, createdAt = now\<rparr>])"
    using j by (simp add: refreshTokens_generate)
  have r: "r_refreshToken (snd (login_success cfg now db u)) = Some (refresh_jwt cfg now u)"
    by (simp add: login_success_response reply_tokens_def)
  show ?thesis using l db found list r by simp
qed

lemma refresh_200:
  assumes "verifyRefreshToken cfg now tok = Inr d" and "findById db (p_id d) = Some stored"
    and "statusCode (snd (refresh cfg now db (Some tok))) = 200"
  shows "isActive stored \<and> tokenExists stored tok"
proof -
  have "\<not> refresh_rejected cfg now db tok"
    using assms(3) refresh_status_iff[of cfg now db tok] by simp
  then show ?thesis using assms(1,2) by (simp add: refresh_rejected_def)
qed

lemma refresh_stores:
  assumes "verifyRefreshToken cfg now tok = Inr d" and "findById db (p_id d) = Some stored"
    and "statusCode (snd (refresh cfg now db (Some tok))) = 200"
  shows "r_refreshToken (snd (refresh cfg now db (Some tok))) = Some (refresh_jwt cfg now stored) \<and>
         (\<exists>u'. findById (fst (refresh cfg now db (Some tok))) (p_id d) = Some u' \<and>
               refreshTokens u'
                 = slice_last 5 (filter (verifies cfg now) (refreshTokens stored)
                                 @ [\<lparr>token = refresh_jwt cfg now stored, createdAt = now\<rparr>]))"
proof -
  let ?u1 = "cleanupRefreshTokens cfg now stored"
  let ?u' = "snd (generateRefreshToken cfg now ?u1)"
  have ok: "isActive stored" "tokenExists stored tok"
    using refresh_200[OF assms] by simp_all
  have r: "refresh cfg now db (Some tok) = refresh_success cfg now db stored"
    by (rule refresh_accept[OF assms(1,2) ok])
  have idd: "user_id stored = p_id d"
    using assms(2) find_holds[of "\<lambda>u. user_id u = p_id d" db stored] by (simp add: findById_def)
  have "user_id ?u' = p_id d" using idd by (simp add: cleanupRefreshTokens_def)
  then have found: "findById (persist db ?u') (p_id d) = Some ?u'"
    using findById_persist[of db ?u' stored] assms(2) by simp
  have list: "refreshTokens ?u'
                = slice_last 5 (filter (verifies cfg now) (refreshTokens stored)
                                @ [\<lparr>token = refresh_jwt cfg now stored, createdAt = now\<rparr>])"
    by (simp add: refreshTokens_generate) (simp add: cleanupRefreshTokens_def)
  have t: "r_refreshToken (snd (refresh_success cfg now db stored)) = Some (refresh_jwt cfg now stored)"
    by (simp add: refresh_success_def Let_def reply_tokens_def fst_generate)
  show ?thesis using r found list t by (simp add: refresh_success_db)
qed

text \<open>
  C6. Every operation that appends a refresh token (register, login, refresh) keeps every
  stored session list at five entries or fewer. What a successful register, login or
  refresh stores for its user, and returns, is the new token appended to the list and the
  result cut to its last five entries (for refresh, after the prune pass): on overflow
  the oldest entries go first and exactly the five most recent remain.
\<close>

theorem refresh_list_capped:
  "tokens_capped db \<Longrightarrow>
     tokens_capped (fst (register cfg now oid salt db nm em pw)) \<and>
     tokens_capped (fst (login cfg now db em pw)) \<and>
     tokens_capped (fst (refresh cfg now db tk)) \<and>
     refreshTokens (snd (generateRefreshToken cfg now u))
       = slice_last 5 (refreshTokens u
                       @ [\<lparr>token = fst (generateRefreshToken cfg now u), createdAt = now\<rparr>]) \<and>
     length (refreshTokens (snd (generateRefreshToken cfg now u))) \<le> 5 \<and>
     (5 \<le> length (refreshTokens u) \<longrightarrow>
        length (refreshTokens (snd (generateRefreshToken cfg now u))) = 5) \<and>
     slice_last 5 xs = rev (take 5 (rev xs)) \<and>
     (statusCode (snd (register cfg now oid salt db nm em pw)) = 201 \<longrightarrow>
        r_refreshToken (snd (register cfg now oid salt db nm em pw))
          = Some (refresh_jwt cfg now (create_User cfg now oid salt nm em pw)) \<and>
        (\<exists>u'. findOne (fst (register cfg now oid salt db nm em pw)) em = Some u' \<and>
              refreshTokens u'
                = [\<lparr>token = refresh_jwt cfg now (create_User cfg now oid salt nm em pw),
                    createdAt = now\<rparr>])) \<and>
     (\<forall>a. findOne db em = Some a \<and> statusCode (snd (login cfg now db em pw)) = 200 \<longrightarrow>
        r_refreshToken (snd (login cfg now db em pw)) = Some (refresh_jwt cfg now a) \<and>
        (\<exists>u'. findOne (fst (login cfg now db em pw)) em = Some u' \<and>
              refreshTokens u'
                = slice_last 5 (refreshTokens a
                                @ [\<lparr>token = refresh_jwt cfg now a, createdAt = now\<rparr>]))) \<and>
     (\<forall>tok d stored.
        verifyRefreshToken cfg now tok = Inr d \<and> findById db (p_id d) = Some stored \<and>
        statusCode (snd (refresh cfg now db (Some tok))) = 200 \<longrightarrow>
        r_refreshToken (snd (refresh cfg now db (Some tok))) = Some (refresh_jwt cfg now stored) \<and>
        (\<exists>u'. findById (fst (refresh cfg now db (Some tok))) (p_id d) = Some u' \<and>
              refreshTokens u'
                = slice_last 5 (filter (verifies cfg now) (refreshTokens stored)
                                @ [\<lparr>token = refresh_jwt cfg now stored, createdAt = now\<rparr>])))"
proof -
  assume capped: "tokens_capped db"
  have caps: "tokens_capped (fst (register cfg now oid salt db nm em pw))"
    "tokens_capped (fst (login cfg now db em pw))"
    "tokens_capped (fst (refresh cfg now db tk))"
    using capped by (simp_all add: register_capped login_capped refresh_capped)
  have gen: "refreshTokens (snd (generateRefreshToken cfg now u))
       = slice_last 5 (refreshTokens u
                       @ [\<lparr>token = fst (generateRefreshToken cfg now u), createdAt = now\<rparr>])"
    "length (refreshTokens (snd (generateRefreshToken cfg now u))) \<le> 5"
    "5 \<le> length (refreshTokens u) \<longrightarrow>
        length (refreshTokens (snd (generateRefreshToken cfg now u))) = 5"
    by (simp_all add: generate_capped refreshTokens_generate fst_generate slice_last_def)
  have sl: "slice_last 5 xs = rev (take 5 (rev xs))" by (rule slice_last_rev)
  show ?thesis
    using caps gen sl register_stores[of cfg now oid salt db nm em pw]
      login_stores[of db em _ cfg now pw] refresh_stores[of cfg now _ _ db]
    by blast
qed

text \<open>Witness: Alice holds five tokens. At 6000 ms Bob registers and his list holds his one
  token; Alice logs in, and refreshes with the token of second 2: each time her stored
  list is the tokens of seconds 2 to 6, the token of second 1 evicted.\<close>

theorem refresh_list_capped_witness:
  "tokens_capped [alice5] \<and>
   tokens_capped (fst (register cfg0 6000 2 9 [alice5] ''Bob'' ''bob@example.com'' ''Password2!'')) \<and>
   tokens_capped (fst (login cfg0 6000 [alice5] ''alice@example.com'' ''Password1!'')) \<and>
   tokens_capped (fst (refresh cfg0 6000 [alice5] (Some (token (issued 2))))) \<and>
   5 \<le> length (refreshTokens alice5) \<and>
   length (refreshTokens (snd (generateRefreshToken cfg0 6000 alice5))) = 5 \<and>
   statusCode (snd (register cfg0 6000 2 9 [alice5] ''Bob'' ''bob@example.com'' ''Password2!'')) = 201 \<and>
   (\<exists>u'. findOne (fst (register cfg0 6000 2 9 [alice5] ''Bob'' ''bob@example.com'' ''Password2!''))
            ''bob@example.com'' = Some u' \<and>
         length (refreshTokens u') = 1) \<and>
   findOne [alice5] ''alice@example.com'' = Some alice5 \<and>
   statusCode (snd (login cfg0 6000 [alice5] ''alice@example.com'' ''Password1!'')) = 200 \<and>
   r_refreshToken (snd (login cfg0 6000 [alice5] ''alice@example.com'' ''Password1!''))
     = Some (token (issued 6)) \<and>
   (\<exists>u'. findOne (fst (login cfg0 6000 [alice5] ''alice@example.com'' ''Password1!''))
            ''alice@example.com'' = Some u' \<and>
         refreshTokens u' = [issued 2, issued 3, issued 4, issued 5, issued 6]) \<and>
   verifyRefreshToken cfg0 6000 (token (issued 2)) = Inr (case token (issued 2) of Signed k p \<Rightarrow> p) \<and>
   findById [alice5] 1 = Some alice5 \<and>
   statusCode (snd (refresh cfg0 6000 [alice5] (Some (token (issued 2))))) = 200 \<and>
   (\<exists>u'. findById (fst (refresh cfg0 6000 [alice5] (Some (token (issued 2))))) 1 = Some u' \<and>
         refreshTokens u' = [issued 2, issued 3, issued 4, issued 5, issued 6])"
proof -
  have h: "tokens_capped [alice5]" by code_simp
  have g: "5 \<le> length (refreshTokens alice5)" by code_simp
  have nb: "findOne [alice5] ''bob@example.com'' = None" by code_simp
  have rb: "statusCode (snd (register cfg0 6000 2 9 [alice5] ''Bob'' ''bob@example.com'' ''Password2!'')) = 201"
    using nb bob_valid by (simp add: register_status)
  have fa: "findOne [alice5] ''alice@example.com'' = Some alice5" by code_simp
  have la: "statusCode (snd (login cfg0 6000 [alice5] ''alice@example.com'' ''Password1!'')) = 200"
    by code_simp
  have jw: "refresh_jwt cfg0 6000 alice5 = token (issued 6)" by code_simp
  have e: "slice_last 5 (refreshTokens alice5 @ [\<lparr>token = refresh_jwt cfg0 6000 alice5, createdAt = 6000\<rparr>])
             = [issued 2, issued 3, issued 4, issued 5, issued 6]" by code_simp
  have v: "verifyRefreshToken cfg0 6000 (token (issued 2)) = Inr (case token (issued 2) of Signed k p \<Rightarrow> p)"
    by code_simp
  have i: "p_id (case token (issued 2) of Signed k p \<Rightarrow> p) = 1" by code_simp
  have fi: "findById [alice5] 1 = Some alice5" by code_simp
  have ra: "statusCode (snd (refresh cfg0 6000 [alice5] (Some (token (issued 2))))) = 200"
    by code_simp
  have k: "filter (verifies cfg0 6000) (refreshTokens alice5) = refreshTokens alice5" by code_simp
  note b = refresh_list_capped[OF h, of cfg0 6000 2 9 "''Bob''" "''bob@example.com''" "''Password2!''"
         "Some (token (issued 2))" alice5]
  note a = refresh_list_capped[OF h, of cfg0 6000 2 9 "''Bob''" "''alice@example.com''" "''Password1!''"
         "Some (token (issued 2))" alice5]
  have bob: "\<exists>u'. findOne (fst (register cfg0 6000 2 9 [alice5] ''Bob'' ''bob@example.com'' ''Password2!''))
            ''bob@example.com'' = Some u' \<and> length (refreshTokens u') = 1"
  proof -
    from b rb obtain u' where
      "findOne (fst (register cfg0 6000 2 9 [alice5] ''Bob'' ''bob@example.com'' ''Password2!''))
         ''bob@example.com'' = Some u'"
      "refreshTokens u'
         = [\<lparr>token = refresh_jwt cfg0 6000
                       (create_User cfg0 6000 2 9 ''Bob'' ''bob@example.com'' ''Password2!''),
             createdAt = 6000\<rparr>]"
      by blast
    then show ?thesis by simp
  qed
  have lg: "\<exists>u'. findOne (fst (login cfg0 6000 [alice5] ''alice@example.com'' ''Password1!''))
            ''alice@example.com'' = Some u' \<and>
         refreshTokens u' = [issued 2, issued 3, issued 4, issued 5, issued 6]"
  proof -
    from a fa la obtain u' where
      "findOne (fst (login cfg0 6000 [alice5] ''alice@example.com'' ''Password1!''))
         ''alice@example.com'' = Some u'"
      "refreshTokens u'
         = slice_last 5 (refreshTokens alice5
                         @ [\<lparr>token = refresh_jwt cfg0 6000 alice5, createdAt = 6000\<rparr>])"
      by blast
    then show ?thesis using e by simp
  qed
  have lt: "r_refreshToken (snd (login cfg0 6000 [alice5] ''alice@example.com'' ''Password1!''))
     = Some (token (issued 6))"
  proof -
    from a fa la have
      "r_refreshToken (snd (login cfg0 6000 [alice5] ''alice@example.com'' ''Password1!''))
         = Some (refresh_jwt cfg0 6000 alice5)"
      by blast
    then show ?thesis using jw by simp
  qed
  have rf: "\<exists>u'. findById (fst (refresh cfg0 6000 [alice5] (Some (token (issued 2))))) 1 = Some u' \<and>
         refreshTokens u' = [issued 2, issued 3, issued 4, issued 5, issued 6]"
  proof -
    have fi': "findById [alice5] (p_id (case token (issued 2) of Signed k p \<Rightarrow> p)) = Some alice5"
      using fi i by simp
    from a v fi' ra obtain u' where
      "findById (fst (refresh cfg0 6000 [alice5] (Some (token (issued 2)))))
         (p_id (case token (issued 2) of Signed k p \<Rightarrow> p)) = Some u'"
      "refreshTokens u'
         = slice_last 5 (filter (verifies cfg0 6000) (refreshTokens alice5)
                         @ [\<lparr>token = refresh_jwt cfg0 6000 alice5, createdAt = 6000\<rparr>])"
      by blast
    then show ?thesis using i k e by simp
  qed
  have caps: "tokens_capped (fst (register cfg0 6000 2 9 [alice5] ''Bob'' ''bob@example.com'' ''Password2!''))"
    "tokens_capped (fst (login cfg0 6000 [alice5] ''alice@example.com'' ''Password1!''))"
    "tokens_capped (fst (refresh cfg0 6000 [alice5] (Some (token (issued 2)))))"
    "length (refreshTokens (snd (generateRefreshToken cfg0 6000 alice5))) = 5"
    using a b g by blast+
  show ?thesis
    using h g rb fa la v fi ra bob lg lt rf caps by simp
qed

subsection \<open>Purpose tokens\<close>

text \<open>A password-reset request for Alice at 2000 ms stores and mails \<open>reset_token\<close>.\<close>

lemma forgot_alice:
  "forgotPassword cfg0 2000 mail0 [alice] ''alice@example.com''
     = ([alice_reset], reply 200 ''success'' ''Password reset email sent successfully'')"
  by code_simp

text \<open>The two purpose endpoints check the \<open>type\<close> claim: a verified token of any other
  type is answered 400 and changes nothing.\<close>

lemma verifyEmail_rejects_other_types:
  "jwt_verify tok (JWT_SECRET cfg) now = Inr decoded \<Longrightarrow> p_type decoded \<noteq> Some ''email_verification'' \<Longrightarrow>
   verifyEmail cfg now db (Some tok) = (db, reply 400 ''fail'' ''Invalid verification token'')"
  by (auto simp: verifyEmail_def falsy_def jwt_verify_def split: token.splits)

lemma resetPassword_rejects_other_types:
  "jwt_verify tok (JWT_SECRET cfg) now = Inr decoded \<Longrightarrow> p_type decoded \<noteq> Some ''password_reset'' \<Longrightarrow>
   resetPassword cfg now salt db tok pw = (db, reply 400 ''fail'' ''Invalid reset token'')"
  by (simp add: resetPassword_def)

text \<open>The auth gate accepts every unexpired token signed with the access secret whose
  \<open>id\<close> names an active user, whatever its \<open>type\<close> claim.\<close>

lemma authenticate_ignores_type:
  "jwt_verify tok (JWT_SECRET cfg) now = Inr decoded \<Longrightarrow>
   findById db (p_id decoded) = Some u \<Longrightarrow> isActive u \<Longrightarrow>
   authenticate cfg now db (bearer_header tok) = Inr (select_default u)"
  by (auto simp: authenticate_def bearer_header_def bearer_def startsWith_def falsy_def
                 jwt_verify_def split: token.splits)

text \<open>
  C1. Purpose tokens are to be accepted for their own purpose only, and never as a bearer
  access token. \<open>authenticate\<close> verifies the signature and the expiry against the access
  secret and loads the user, and does not read the \<open>type\<close> claim: the password-reset
  token that \<open>POST /forgot-password\<close> issued for Alice, sent as \<open>Bearer\<close> credentials one
  second later, authenticates as Alice.
\<close>

theorem reset_token_passes_authenticate:
  "forgotPassword cfg0 2000 mail0 [alice] ''alice@example.com''
     = ([alice_reset], reply 200 ''success'' ''Password reset email sent successfully'') \<and>
   passwordResetToken alice_reset = Some reset_token \<and>
   authenticate cfg0 3000 [alice_reset] (bearer_header reset_token) = Inr (select_default alice_reset)"
  by code_simp

text \<open>\<open>POST /reset-password\<close> loads the user without selecting \<open>passwordResetToken\<close>, a
  \<open>select: false\<close> path, so the stored-token check fails for every request that reaches
  it: no request is answered 200 and none changes the store.\<close>

lemma resetPassword_never_succeeds:
  "statusCode (snd (resetPassword cfg now salt db tok pw)) \<noteq> 200 \<and>
   fst (resetPassword cfg now salt db tok pw) = db"
  by (simp add: resetPassword_def select_default_def falsy_def Let_def
        split: sum.splits option.splits)

text \<open>The reset token that \<open>POST /forgot-password\<close> stored and mailed for Alice, presented
  one second later with a new password, is answered 400 and changes nothing.\<close>

lemma reset_with_issued_token_fails:
  "forgotPassword cfg0 2000 mail0 [alice] ''alice@example.com''
     = ([alice_reset], reply 200 ''success'' ''Password reset email sent successfully'') \<and>
   passwordResetToken alice_reset = Some reset_token \<and>
   resetPassword cfg0 3000 8 [alice_reset] reset_token ''NewPassw0rd!''
     = ([alice_reset], reply 400 ''fail'' ''Invalid or expired reset token'')"
  by code_simp





text \<open>\<open>POST /forgot-password\<close> answers 200 in every case: the mail service never throws,
  so the 500 branch of the route is not taken.\<close>

lemma forgotPassword_always_200:
  "statusCode (snd (forgotPassword cfg now ms db em)) = 200"
  by (simp add: forgotPassword_def sendPasswordReset_def Let_def split: option.splits)

text \<open>The two messages of the route, by whether the email has an account.\<close>

lemma forgotPassword_unknown:
  "findOne db em = None \<Longrightarrow>
   forgotPassword cfg now ms db em
     = (db, reply 200 ''success''
              ''If a user with that email exists, we have sent a password reset link'')"
  by (simp add: forgotPassword_def)

lemma forgotPassword_known:
  "findOne db em = Some u \<Longrightarrow>
   snd (forgotPassword cfg now ms db em)
     = reply 200 ''success'' ''Password reset email sent successfully''"
  by (simp add: forgotPassword_def sendPasswordReset_def Let_def)

text \<open>
  C8. \<open>POST /forgot-password\<close> is to answer 200 without revealing whether the account
  exists. Both answers are 200, but the message for Alice's email differs from the message
  for an email with no account.
\<close>

theorem forgot_password_reveals_account:
  "findOne [alice] ''alice@example.com'' = Some alice \<and>
   findOne [alice] ''bob@example.com'' = None \<and>
   message (snd (forgotPassword cfg0 2000 mail0 [alice] ''alice@example.com''))
     = ''Password reset email sent successfully'' \<and>
   message (snd (forgotPassword cfg0 2000 mail0 [alice] ''bob@example.com''))
     = ''If a user with that email exists, we have sent a password reset link''"
  by code_simp

end
